theory Spec2Isabelle
  imports Complex_Main
begin

text \<open>
  Floating-point numbers are modelled as real numbers throughout; Python exceptions are
  values of the type \<open>error\<close>, returned on the left of a sum.
\<close>

datatype error =
  KeyError | LookupError | CoordinateNotFoundError | AttributeError | IndexError
  | ValueError | TypeError

section \<open>The gridded-data library used by aeolus.misc\<close>

text \<open>
  \<open>aeolus.misc\<close> works on cubes of the iris library. The part of that library the two
  functions call is modelled here from its documented behaviour: coordinates with points and
  optional bounds, the guessing of bounds, the guessing of a coordinate's axis, coordinate
  lookup, constraints and extraction, cube multiplication and the collapse of a cube by
  summation. Dimension coordinates are taken to be non-circular, and a cube carries, besides
  its dimension coordinates, only scalar coordinates (coordinates with one point that belong
  to no dimension).
\<close>

subsection \<open>Coordinates and cells\<close>

record coord =
  coord_name :: string
  degrees :: bool
  vertical_units :: bool
  time_units :: bool
  points :: "real list"
  bounds :: "(real \<times> real) list option"

text \<open>
  \<open>degrees\<close>: the units are degrees. \<open>vertical_units\<close>: the units convert to hPa or the
  coordinate has the attribute \<open>positive\<close> (up or down). \<open>time_units\<close>: the units are a time
  reference. A bound is the pair \<open>(bounds[i, 0], bounds[i, 1])\<close>.
\<close>

datatype axis = X | Y | Z | T

definition guess_coord_axis :: "coord \<Rightarrow> axis option" where
  "guess_coord_axis c =
     (if coord_name c \<in> set [''longitude'', ''grid_longitude'', ''projection_x_coordinate'']
      then Some X
      else if coord_name c \<in> set [''latitude'', ''grid_latitude'', ''projection_y_coordinate'']
      then Some Y
      else if vertical_units c then Some Z
      else if time_units c then Some T
      else None)"

text \<open>
  A cell is one point of a coordinate with its bound, if the coordinate has bounds. The
  library compares a cell with a number so that constraints match: a cell with a bound
  equals a number when the number lies within the bound, \<open>cell <= v\<close> compares the lower
  end of the bound and \<open>cell >= v\<close> the upper end; a cell without a bound compares by its
  point.
\<close>

type_synonym cell = "real \<times> (real \<times> real) option"

definition cells :: "coord \<Rightarrow> cell list" where
  "cells c =
     (case bounds c of
        None \<Rightarrow> map (\<lambda>p. (p, None)) (points c)
      | Some bs \<Rightarrow> map (\<lambda>(p, b). (p, Some b)) (zip (points c) bs))"

fun cell_eq :: "cell \<Rightarrow> real \<Rightarrow> bool" where
  "cell_eq (p, None) v = (p = v)"
| "cell_eq (p, Some (a, b)) v = (min a b \<le> v \<and> v \<le> max a b)"

fun cell_le :: "cell \<Rightarrow> real \<Rightarrow> bool" where
  "cell_le (p, None) v = (p \<le> v)"
| "cell_le (p, Some (a, b)) v = (min a b \<le> v)"

fun cell_ge :: "cell \<Rightarrow> real \<Rightarrow> bool" where
  "cell_ge (p, None) v = (p \<ge> v)"
| "cell_ge (p, Some (a, b)) v = (max a b \<ge> v)"

text \<open>
  \<open>Coord.guess_bounds()\<close> with the default bound position 0.5. It raises ValueError for
  points that are not strictly monotonic and for a coordinate of length 1. The differences
  of neighbouring points are extended at both ends by their first and last value, the bounds
  lie half a difference below and above each point, and the bounds of a latitude in degrees
  whose points all lie in \<open>[-90, 90]\<close> are clipped to that range.
\<close>

definition is_monotonic :: "real list \<Rightarrow> bool" where
  "is_monotonic ps = (sorted_wrt (<) ps \<or> sorted_wrt (>) ps)"

definition diff :: "real list \<Rightarrow> real list" where
  "diff ps = map (\<lambda>(a, b). b - a) (zip ps (tl ps))"

definition clip :: "real \<Rightarrow> real \<Rightarrow> real \<Rightarrow> real" where
  "clip lo hi x = (if x < lo then lo else if x > hi then hi else x)"

definition clips_latitude :: "coord \<Rightarrow> bool" where
  "clips_latitude c =
     (coord_name c \<in> set [''latitude'', ''grid_latitude''] \<and> degrees c
      \<and> list_all (\<lambda>p. -90 \<le> p \<and> p \<le> 90) (points c))"

definition guess_bounds :: "coord \<Rightarrow> error + (real \<times> real) list" where
  "guess_bounds c =
     (let ps = points c in
      if \<not> is_monotonic ps then Inl ValueError
      else if length ps < 2 then Inl ValueError
      else
        let diffs = hd (diff ps) # diff ps @ [last (diff ps)];
            min_bounds = map (\<lambda>(p, d). p - d * 0.5) (zip ps (butlast diffs));
            max_bounds = map (\<lambda>(p, d). p + d * (1 - 0.5)) (zip ps (tl diffs));
            bs = zip min_bounds max_bounds
        in if clips_latitude c
           then Inr (map (\<lambda>(a, b). (clip (-90) 90 a, clip (-90) 90 b)) bs)
           else Inr bs)"

subsection \<open>Cubes\<close>

text \<open>
  The data of a cube is a function of the index list, one index per dimension; the shape is
  given by the dimension coordinates.
\<close>

record cube =
  cube_name :: string
  dim_coords :: "coord list"
  scalar_coords :: "coord list"
  cube_data :: "nat list \<Rightarrow> real"

definition shape :: "cube \<Rightarrow> nat list" where
  "shape c = map (\<lambda>d. length (points d)) (dim_coords c)"

text \<open>
  \<open>cube.coord(name)\<close> and \<open>cube.coord(axis=...)\<close> return the one coordinate that
  matches and raise CoordinateNotFoundError when none or several do.
\<close>

definition the_only :: "coord list \<Rightarrow> error + coord" where
  "the_only cs = (case cs of [c] \<Rightarrow> Inr c | _ \<Rightarrow> Inl CoordinateNotFoundError)"

definition coord_by_name :: "cube \<Rightarrow> string \<Rightarrow> error + coord" where
  "coord_by_name c n =
     the_only (filter (\<lambda>d. coord_name d = n) (dim_coords c @ scalar_coords c))"

definition coord_by_axis :: "cube \<Rightarrow> axis \<Rightarrow> error + coord" where
  "coord_by_axis c ax =
     the_only (filter (\<lambda>d. guess_coord_axis d = Some ax) (dim_coords c @ scalar_coords c))"

subsection \<open>Constraints and extraction\<close>

text \<open>
  A coordinate constraint names a coordinate and gives a value or a function of the cell;
  \<open>&\<close> joins constraints, so a constraint is a list of coordinate constraints that must
  all hold.
\<close>

datatype coord_thing = Value real | Callable "cell \<Rightarrow> bool"

type_synonym constraint = "(string \<times> coord_thing) list"

fun matches :: "coord_thing \<Rightarrow> cell \<Rightarrow> bool" where
  "matches (Value v) x = cell_eq x v"
| "matches (Callable f) x = f x"

text \<open>
  One coordinate constraint gives a mask for every dimension of the cube. A coordinate that
  is not found (or not uniquely) makes every mask false; a constraint on a dimension
  coordinate masks its dimension; a constraint on a scalar coordinate leaves the dimensions
  alone when the coordinate matches and makes every mask false when it does not.
\<close>

definition all_masks :: "cube \<Rightarrow> bool \<Rightarrow> bool list list" where
  "all_masks c b = map (\<lambda>d. replicate (length (points d)) b) (dim_coords c)"

definition constraint_masks :: "cube \<Rightarrow> string \<times> coord_thing \<Rightarrow> bool list list" where
  "constraint_masks c nt =
     (case coord_by_name c (fst nt) of
        Inl e \<Rightarrow> all_masks c False
      | Inr found \<Rightarrow>
          if list_ex (\<lambda>d. coord_name d = fst nt) (dim_coords c)
          then map (\<lambda>d. if coord_name d = fst nt then map (matches (snd nt)) (cells d)
                         else replicate (length (points d)) True) (dim_coords c)
          else all_masks c (list_all (matches (snd nt)) (cells found)))"

definition and_masks :: "bool list list \<Rightarrow> bool list list \<Rightarrow> bool list list" where
  "and_masks ms ns = map (\<lambda>(m, n). map (\<lambda>(a, b). a \<and> b) (zip m n)) (zip ms ns)"

definition cube_masks :: "cube \<Rightarrow> constraint \<Rightarrow> bool list list" where
  "cube_masks c cs = foldl (\<lambda>ms nt. and_masks ms (constraint_masks c nt)) (all_masks c True) cs"

text \<open>
  The masks become an index key: no index is possible when a mask has no true entry; a
  mask that is true everywhere keeps its dimension whole; a mask with one true entry picks
  that index and drops the dimension, whose coordinate becomes a scalar coordinate; any
  other mask keeps the true entries.
\<close>

datatype key = Keep "nat list" | Pick nat

definition where_true :: "bool list \<Rightarrow> nat list" where
  "where_true m = filter (\<lambda>i. m ! i) [0..<length m]"

fun as_slice :: "bool list list \<Rightarrow> key list option" where
  "as_slice [] = Some []"
| "as_slice (m # ms) =
     (let w = where_true m in
      if w = [] then None
      else case as_slice ms of
        None \<Rightarrow> None
      | Some ks \<Rightarrow>
          if length w = length m then Some (Keep w # ks)
          else if length w = 1 then Some (Pick (hd w) # ks)
          else Some (Keep w # ks))"

definition take_cells :: "nat list \<Rightarrow> coord \<Rightarrow> coord" where
  "take_cells is d =
     d\<lparr>points := map (\<lambda>i. points d ! i) is,
       bounds := map_option (\<lambda>bs. map (\<lambda>i. bs ! i) is) (bounds d)\<rparr>"

fun reindex :: "key list \<Rightarrow> nat list \<Rightarrow> nat list" where
  "reindex [] idx = []"
| "reindex (Pick i # ks) idx = i # reindex ks idx"
| "reindex (Keep w # ks) [] = []"
| "reindex (Keep w # ks) (j # idx) = w ! j # reindex ks idx"

definition kept_coords :: "key list \<Rightarrow> coord list \<Rightarrow> coord list" where
  "kept_coords ks ds =
     concat (map (\<lambda>(k, d). case k of Keep w \<Rightarrow> [take_cells w d] | Pick i \<Rightarrow> []) (zip ks ds))"

definition picked_coords :: "key list \<Rightarrow> coord list \<Rightarrow> coord list" where
  "picked_coords ks ds =
     concat (map (\<lambda>(k, d). case k of Keep w \<Rightarrow> [] | Pick i \<Rightarrow> [take_cells [i] d]) (zip ks ds))"

definition getitem :: "cube \<Rightarrow> key list \<Rightarrow> cube" where
  "getitem c ks =
     c\<lparr>dim_coords := kept_coords ks (dim_coords c),
       scalar_coords := scalar_coords c @ picked_coords ks (dim_coords c),
       cube_data := (\<lambda>idx. cube_data c (reindex ks idx))\<rparr>"

text \<open>\<open>cube.extract(constraint)\<close> returns \<open>None\<close> when nothing matches.\<close>

definition cube_extract :: "cube \<Rightarrow> constraint \<Rightarrow> cube option" where
  "cube_extract c cs = map_option (getitem c) (as_slice (cube_masks c cs))"

subsection \<open>Arithmetic and collapse\<close>

text \<open>
  The product of two cubes of the same shape is taken element by element and keeps the
  coordinates of the left operand; operands of different shapes are refused with ValueError
  here (the broadcasting of the library is not modelled), and an operand that is \<open>None\<close>
  makes the library raise an error, given as TypeError.
\<close>

definition multiply :: "cube option \<Rightarrow> cube option \<Rightarrow> error + cube" where
  "multiply a b =
     (case (a, b) of
        (Some x, Some y) \<Rightarrow>
          if shape x = shape y
          then Inr (x\<lparr>cube_data := (\<lambda>idx. cube_data x idx * cube_data y idx)\<rparr>)
          else Inl ValueError
      | _ \<Rightarrow> Inl TypeError)"

fun all_indices :: "nat list \<Rightarrow> nat list list" where
  "all_indices [] = [[]]"
| "all_indices (n # ns) = concat (map (\<lambda>i. map ((#) i) (all_indices ns)) [0..<n])"

text \<open>\<open>cube.collapsed(cube.dim_coords, iris.analysis.SUM)\<close>: the sum over every dimension.\<close>

definition collapsed_sum :: "cube \<Rightarrow> real" where
  "collapsed_sum c = sum_list (map (cube_data c) (all_indices (shape c)))"

section \<open>aeolus.misc\<close>

subsection \<open>The nearest coordinate value\<close>

text \<open>
  Modelled from the spec: \<open>nearest_coord_value\<close> is imported from \<open>aeolus.coord_utils\<close>,
  which is not among the source files. The spec says that the requested value is snapped to
  the nearest available grid value on the named axis, and that the search fails with a
  LookupError equivalent when the axis has no candidate value. Of several values equally
  near, the first is taken.
\<close>

fun nearest_of :: "real \<Rightarrow> real \<Rightarrow> real list \<Rightarrow> real" where
  "nearest_of v best [] = best"
| "nearest_of v best (p # ps) = nearest_of v (if \<bar>p - v\<bar> < \<bar>best - v\<bar> then p else best) ps"

definition nearest_coord_value :: "cube \<Rightarrow> string \<Rightarrow> real \<Rightarrow> error + real" where
  "nearest_coord_value c n v =
     (case coord_by_name c n of
        Inl e \<Rightarrow> Inl e
      | Inr d \<Rightarrow> (case points d of [] \<Rightarrow> Inl LookupError | p # ps \<Rightarrow> Inr (nearest_of v p ps)))"

subsection \<open>vertical_cross_section_area\<close>

definition deg2rad :: "real \<Rightarrow> real" where
  "deg2rad x = x * (pi / 180)"

text \<open>The loop over the dimension coordinates that guesses the bounds a coordinate lacks.\<close>

fun guess_missing_bounds :: "coord list \<Rightarrow> error + coord list" where
  "guess_missing_bounds [] = Inr []"
| "guess_missing_bounds (d # ds) =
     (case (if bounds d = None
            then (case guess_bounds d of Inl e \<Rightarrow> Inl e | Inr bs \<Rightarrow> Inr (d\<lparr>bounds := Some bs\<rparr>))
            else Inr d) of
        Inl e \<Rightarrow> Inl e
      | Inr d' \<Rightarrow>
          (case guess_missing_bounds ds of Inl e \<Rightarrow> Inl e | Inr ds' \<Rightarrow> Inr (d' # ds')))"

definition widths :: "(real \<times> real) list \<Rightarrow> real list" where
  "widths bs = map (\<lambda>(a, b). b - a) bs"

text \<open>
  The argument is \<open>None\<close> when the extraction before the call matched nothing; then
  \<open>cube2d.copy()\<close> raises AttributeError. \<open>cube2d.dim_coords[1]\<close> raises IndexError for a
  cube of fewer than two dimensions, \<open>points[0]\<close> for a coordinate without points, and
  \<open>cube2d.copy(data=...)\<close> raises ValueError when the two-dimensional array of areas does
  not have the shape of the cube. \<open>m_per_deg\<close> is the factor of lines 15 to 17, and
  \<open>vc_area\<close> the cube of lines 22 to 32, built from the coordinates with their bounds.
\<close>

definition m_per_deg :: "cube \<Rightarrow> real \<Rightarrow> error + real" where
  "m_per_deg c r_planet =
     (if guess_coord_axis (dim_coords c ! 1) = Some X
      then (case coord_by_axis c Y of
              Inl e \<Rightarrow> Inl e
            | Inr y \<Rightarrow>
                (case points y of
                   [] \<Rightarrow> Inl IndexError
                 | p # ps \<Rightarrow> Inr ((pi / 180) * r_planet * cos (deg2rad p))))
      else Inr ((pi / 180) * r_planet))"

definition vc_area :: "cube \<Rightarrow> coord list \<Rightarrow> real \<Rightarrow> error + cube" where
  "vc_area c ds m =
     (case coord_by_name (c\<lparr>dim_coords := ds\<rparr>) (coord_name (ds ! 1)) of
        Inl e \<Rightarrow> Inl e
      | Inr xc \<Rightarrow>
          (case coord_by_name (c\<lparr>dim_coords := ds\<rparr>) (coord_name (ds ! 0)) of
             Inl e \<Rightarrow> Inl e
           | Inr zc \<Rightarrow>
               (let x_bounds = the (bounds xc); z_bounds = the (bounds zc) in
                if length ds \<noteq> 2 then Inl ValueError
                else Inr \<lparr>cube_name = ''vertical_section_area'',
                          dim_coords = map (\<lambda>d. d\<lparr>bounds := None\<rparr>) ds,
                          scalar_coords = scalar_coords c,
                          cube_data = (\<lambda>idx. widths z_bounds ! (idx ! 0)
                             * (widths x_bounds ! (idx ! 1) * m))\<rparr>)))"

definition vertical_cross_section_area :: "cube option \<Rightarrow> real \<Rightarrow> error + cube" where
  "vertical_cross_section_area cube2d r_planet =
     (case cube2d of
        None \<Rightarrow> Inl AttributeError
      | Some c \<Rightarrow>
          (if length (dim_coords c) < 2 then Inl IndexError
           else
             (case m_per_deg c r_planet of
                Inl e \<Rightarrow> Inl e
              | Inr m \<Rightarrow>
                  (case guess_missing_bounds (dim_coords c) of
                     Inl e \<Rightarrow> Inl e
                   | Inr ds \<Rightarrow> vc_area c ds m))))"

subsection \<open>net_horizontal_flux_to_region\<close>

text \<open>
  The box is a dictionary, kept as the list of its items in insertion order. A warning
  records the difference \<open>nearest - ll_val\<close> and the name of the coordinate (the text of
  the message rounds the difference to two decimals).
\<close>

datatype warning = NearestValueWarning real string

definition ll_other :: "string \<Rightarrow> string option" where
  "ll_other k = map_of [(''longitude'', ''latitude''), (''latitude'', ''longitude'')] k"

definition perpendicular_wind_cmpnts :: "cube \<Rightarrow> cube \<Rightarrow> string \<Rightarrow> cube option" where
  "perpendicular_wind_cmpnts u v k = map_of [(''longitude'', u), (''latitude'', v)] k"

text \<open>
  The constraint of one boundary: the fixed coordinate equals the snapped value, the
  vertical constraint if there is one, and the free coordinate lies in the range, with
  the wrapped form when \<open>other_max < other_min\<close>. In \<open>other_min <= x <= other_max\<close> the
  value \<open>x\<close> is a cell, so the first comparison is the cell's \<open>>=\<close>.
\<close>

definition other_range :: "real \<Rightarrow> real \<Rightarrow> cell \<Rightarrow> bool" where
  "other_range other_min other_max x =
     (if other_max \<ge> other_min then cell_ge x other_min \<and> cell_le x other_max
      else cell_le x other_max \<or> cell_ge x other_min)"

definition vcross_cnstr ::
  "string \<Rightarrow> real \<Rightarrow> constraint option \<Rightarrow> string \<Rightarrow> real \<Rightarrow> real \<Rightarrow> constraint" where
  "vcross_cnstr this_coord nearest vertical_constraint other_coord other_min other_max =
     [(this_coord, Value nearest)]
     @ (case vertical_constraint of None \<Rightarrow> [] | Some vc \<Rightarrow> vc)
     @ [(other_coord, Callable (other_range other_min other_max))]"

text \<open>
  The flux through one boundary: the area of the extracted cross-section, the product of
  wind, scalar and area, and its sum over all dimensions.
\<close>

definition total_flux :: "cube \<Rightarrow> cube \<Rightarrow> real \<Rightarrow> constraint \<Rightarrow> error + real" where
  "total_flux scalar_cube wind r_planet cnstr =
     (case vertical_cross_section_area (cube_extract scalar_cube cnstr) r_planet of
        Inl e \<Rightarrow> Inl e
      | Inr vcross_area \<Rightarrow>
          (case multiply (cube_extract wind cnstr) (cube_extract scalar_cube cnstr) of
             Inl e \<Rightarrow> Inl e
           | Inr uq \<Rightarrow>
               (case multiply (Some uq) (Some vcross_area) of
                  Inl e \<Rightarrow> Inl e
                | Inr cube \<Rightarrow> Inr (collapsed_sum cube))))"

text \<open>
  One pass of the loop over the items of the box. The result is the list of warnings
  emitted in the pass and either the error raised or the total flux appended.
\<close>

definition boundary_flux ::
  "cube \<Rightarrow> (string \<times> real) list \<Rightarrow> cube \<Rightarrow> cube \<Rightarrow> real \<Rightarrow> constraint option
     \<Rightarrow> string \<times> real \<Rightarrow> warning list \<times> (error + real)" where
  "boundary_flux scalar_cube latlon_box_dict u v r_planet vertical_constraint item =
     (let ll_coord = fst item; ll_val = snd item; this_coord = butlast ll_coord in
      case ll_other this_coord of
        None \<Rightarrow> ([], Inl KeyError)
      | Some other_coord \<Rightarrow>
          (case nearest_coord_value scalar_cube this_coord ll_val of
             Inl e \<Rightarrow> ([], Inl e)
           | Inr nearest \<Rightarrow>
               let ws = (if \<bar>nearest - ll_val\<bar> > 10
                         then [NearestValueWarning (nearest - ll_val) this_coord] else [])
               in
               (case map_of latlon_box_dict (other_coord @ ''0'') of
                  None \<Rightarrow> (ws, Inl KeyError)
                | Some other_min \<Rightarrow>
                    (case map_of latlon_box_dict (other_coord @ ''1'') of
                       None \<Rightarrow> (ws, Inl KeyError)
                     | Some other_max \<Rightarrow>
                         (case perpendicular_wind_cmpnts u v this_coord of
                            None \<Rightarrow> (ws, Inl KeyError)
                          | Some wind \<Rightarrow>
                              (ws, total_flux scalar_cube wind r_planet
                                     (vcross_cnstr this_coord nearest vertical_constraint
                                        other_coord other_min other_max)))))))"

fun total_h_fluxes ::
  "cube \<Rightarrow> (string \<times> real) list \<Rightarrow> cube \<Rightarrow> cube \<Rightarrow> real \<Rightarrow> constraint option
     \<Rightarrow> (string \<times> real) list \<Rightarrow> warning list \<times> (error + real list)" where
  "total_h_fluxes scalar_cube box u v r_planet vc [] = ([], Inr [])"
| "total_h_fluxes scalar_cube box u v r_planet vc (item # items) =
     (case boundary_flux scalar_cube box u v r_planet vc item of
        (ws, Inl e) \<Rightarrow> (ws, Inl e)
      | (ws, Inr f) \<Rightarrow>
          (case total_h_fluxes scalar_cube box u v r_planet vc items of
             (ws', Inl e) \<Rightarrow> (ws @ ws', Inl e)
           | (ws', Inr fs) \<Rightarrow> (ws @ ws', Inr (f # fs))))"

record flux_result =
  flux_name :: string
  flux_value :: real

text \<open>
  The net flux combines the first four totals; \<open>total_h_fluxes[k]\<close> raises IndexError when
  the box has fewer than four items.
\<close>

definition net_horizontal_flux_to_region ::
  "cube \<Rightarrow> (string \<times> real) list \<Rightarrow> cube \<Rightarrow> cube \<Rightarrow> real \<Rightarrow> constraint option
     \<Rightarrow> warning list \<times> (error + flux_result)" where
  "net_horizontal_flux_to_region scalar_cube latlon_box_dict u v r_planet vertical_constraint =
     (case total_h_fluxes scalar_cube latlon_box_dict u v r_planet vertical_constraint
             latlon_box_dict of
        (ws, Inl e) \<Rightarrow> (ws, Inl e)
      | (ws, Inr fs) \<Rightarrow>
          (case fs of
             f0 # f1 # f2 # f3 # rest \<Rightarrow>
               (ws, Inr \<lparr>flux_name = ''net_'' @ cube_name scalar_cube
                                      @ ''_horizontal_flux_to_region'',
                         flux_value = (f0 - f1) + (f2 - f3)\<rparr>)
           | _ \<Rightarrow> (ws, Inl IndexError)))"


section \<open>aeolus.plot.mpl: normalising data around a midpoint\<close>

text \<open>
  \<open>numpy.interp\<close> locates the sample interval of a value with
  \<open>binary_search_with_guess\<close>: a key above the last sample gives \<open>len\<close>, a key below the
  first gives \<open>-1\<close>, and for at most four samples the index is found by the linear scan
  \<^verbatim>\<open>for (i = 1; i < len && key >= arr[i]; ++i); return i - 1;\<close>
  (for longer increasing arrays a bisection returns the same index).
\<close>

fun linear_scan :: "real \<Rightarrow> real list \<Rightarrow> nat \<Rightarrow> nat" where
  "linear_scan key [] i = i"
| "linear_scan key (a # arr) i = (if key \<ge> a then linear_scan key arr (Suc i) else i)"

definition binary_search_with_guess :: "real \<Rightarrow> real list \<Rightarrow> int" where
  "binary_search_with_guess key arr =
     (if key > last arr then int (length arr)
      else if key < hd arr then -1
      else int (linear_scan key (tl arr) 1) - 1)"

text \<open>
  \<open>numpy.interp(x, xp, fp)\<close> for one value \<open>x\<close>, with the default \<open>left\<close> and \<open>right\<close>
  (the first and the last of \<open>fp\<close>). It raises ValueError when \<open>xp\<close> is empty or the two
  lists differ in length.
\<close>

definition interp :: "real \<Rightarrow> real list \<Rightarrow> real list \<Rightarrow> error + real" where
  "interp x xp fp =
     (if xp = [] \<or> length xp \<noteq> length fp then Inl ValueError
      else
        let j = binary_search_with_guess x xp in
        if j = -1 then Inr (hd fp)
        else if j = int (length xp) then Inr (last fp)
        else if j = int (length xp) - 1 then Inr (fp ! nat j)
        else if xp ! nat j = x then Inr (fp ! nat j)
        else
          let slope = (fp ! (nat j + 1) - fp ! nat j) / (xp ! (nat j + 1) - xp ! nat j)
          in Inr (slope * (x - xp ! nat j) + fp ! nat j))"

text \<open>
  \<open>MidpointNormalize\<close> keeps \<open>vmin\<close>, \<open>vmax\<close> and \<open>midpoint\<close>, each of which is \<open>None\<close>
  unless the caller sets it. \<open>__call__\<close> interpolates the value between the anchors
  \<open>[vmin, midpoint, vmax]\<close> and \<open>[0, 0.5, 1]\<close>; an anchor that is \<open>None\<close> makes
  \<open>numpy.interp\<close> raise TypeError.
\<close>

record MidpointNormalize =
  vmin :: "real option"
  vmax :: "real option"
  midpoint :: "real option"

definition call :: "MidpointNormalize \<Rightarrow> real \<Rightarrow> error + real" where
  "call self v =
     (case (vmin self, midpoint self, vmax self) of
        (Some lo, Some mid, Some hi) \<Rightarrow> interp v [lo, mid, hi] [0, 0.5, 1]
      | _ \<Rightarrow> Inl TypeError)"

fun call_array :: "MidpointNormalize \<Rightarrow> real list \<Rightarrow> error + real list" where
  "call_array self [] = Inr []"
| "call_array self (v # vs) =
     (case call self v of
        Inl e \<Rightarrow> Inl e
      | Inr y \<Rightarrow> (case call_array self vs of Inl e \<Rightarrow> Inl e | Inr ys \<Rightarrow> Inr (y # ys)))"

text \<open>
  The curve the normalisation is expected to follow, written from its description: 0 up to
  \<open>vmin\<close>, a straight line from 0 at \<open>vmin\<close> to 0.5 at the midpoint, a straight line from
  0.5 at the midpoint to 1 at \<open>vmax\<close>, and 1 from \<open>vmax\<close> on.
\<close>

definition midpoint_curve :: "real \<Rightarrow> real \<Rightarrow> real \<Rightarrow> real \<Rightarrow> real" where
  "midpoint_curve lo mid hi v =
     (if v \<le> lo then 0 else if v \<le> mid then 0.5 * ((v - lo) / (mid - lo))
      else if v < hi then 0.5 + 0.5 * ((v - mid) / (hi - mid)) else 1)"

section \<open>Notions used in the statements\<close>

text \<open>
  The bounds the specification describes for a coordinate without bounds: the midpoints
  between neighbouring points, the two edge cells extrapolating the adjacent spacing.
\<close>

definition midpoint_bounds :: "real list \<Rightarrow> (real \<times> real) list" where
  "midpoint_bounds ps =
     map (\<lambda>i. (if i = 0 then ps ! 0 - (ps ! 1 - ps ! 0) / 2 else (ps ! (i - 1) + ps ! i) / 2,
                if i = length ps - 1 then ps ! i + (ps ! i - ps ! (i - 1)) / 2
                else (ps ! i + ps ! (i + 1)) / 2))
         [0..<length ps]"

text \<open>Bounds that lie between the poles.\<close>

definition within_poles :: "(real \<times> real) list \<Rightarrow> bool" where
  "within_poles bs = list_all (\<lambda>(a, b). -90 \<le> a \<and> a \<le> 90 \<and> -90 \<le> b \<and> b \<le> 90) bs"

text \<open>A cube with the midpoint bounds supplied on its dimension coordinates, and without bounds.\<close>

definition with_midpoint_bounds :: "cube \<Rightarrow> cube" where
  "with_midpoint_bounds c =
     c\<lparr>dim_coords := map (\<lambda>d. d\<lparr>bounds := Some (midpoint_bounds (points d))\<rparr>) (dim_coords c)\<rparr>"

definition without_bounds :: "cube \<Rightarrow> cube" where
  "without_bounds c = c\<lparr>dim_coords := map (\<lambda>d. d\<lparr>bounds := None\<rparr>) (dim_coords c)\<rparr>"

text \<open>A coordinate without time units, and equally spaced points.\<close>

definition axis_coord ::
  "string \<Rightarrow> bool \<Rightarrow> bool \<Rightarrow> real list \<Rightarrow> (real \<times> real) list option \<Rightarrow> coord" where
  "axis_coord n deg vert ps bs =
     \<lparr>coord_name = n, degrees = deg, vertical_units = vert, time_units = False,
      points = ps, bounds = bs\<rparr>"

definition uniform_points :: "real \<Rightarrow> real \<Rightarrow> nat \<Rightarrow> real list" where
  "uniform_points x0 dx n = map (\<lambda>k. x0 + real k * dx) [0..<n]"

text \<open>
  A uniform latitude/longitude grid: \<open>m\<close> latitudes from \<open>lat0\<close> with spacing \<open>dlat\<close> and
  \<open>n\<close> longitudes from \<open>lon0\<close> with spacing \<open>dlon\<close>, in degrees, without bounds.
\<close>

definition latlon_grid ::
  "real \<Rightarrow> real \<Rightarrow> nat \<Rightarrow> real \<Rightarrow> real \<Rightarrow> nat \<Rightarrow> (nat list \<Rightarrow> real) \<Rightarrow> cube" where
  "latlon_grid lat0 dlat m lon0 dlon n f =
     \<lparr>cube_name = ''field'',
      dim_coords = [axis_coord ''latitude'' True False (uniform_points lat0 dlat m) None,
                    axis_coord ''longitude'' True False (uniform_points lon0 dlon n) None],
      scalar_coords = [], cube_data = f\<rparr>"

text \<open>The indices a key selects, and the key that \<open>as_slice\<close> makes of one mask.\<close>

fun key_indices :: "key \<Rightarrow> nat list" where
  "key_indices (Keep w) = w"
| "key_indices (Pick i) = [i]"

definition key_of_mask :: "bool list \<Rightarrow> key" where
  "key_of_mask m =
     (let w = where_true m in
      if length w = length m then Keep w
      else if length w = 1 then Pick (hd w)
      else Keep w)"

text \<open>
  The range of the free coordinate as the specification words it, on the point values:
  within \<open>[other_min, other_max]\<close>, or wrapped when \<open>other_max < other_min\<close>.
\<close>

definition in_box_range :: "real \<Rightarrow> real \<Rightarrow> real \<Rightarrow> bool" where
  "in_box_range other_min other_max x =
     (if other_max \<ge> other_min then other_min \<le> x \<and> x \<le> other_max
      else x \<ge> other_min \<or> x \<le> other_max)"

text \<open>A coordinate whose bounds, if it has any, are as many as its points.\<close>

definition bounds_fit :: "coord \<Rightarrow> bool" where
  "bounds_fit d = (case bounds d of None \<Rightarrow> True | Some bs \<Rightarrow> length bs = length (points d))"

section \<open>Example data\<close>

text \<open>
  Small cubes on which the functions are evaluated: two levels of height, the latitudes 0
  and 10 and a longitude coordinate, given with the data of the cube.
\<close>

definition ex_height :: coord where
  "ex_height = axis_coord ''level_height'' False True [0, 100] None"

definition ex_latitude :: coord where
  "ex_latitude = axis_coord ''latitude'' True False [0, 10] None"

definition ex_longitude :: coord where
  "ex_longitude = axis_coord ''longitude'' True False [0, 10] None"

definition ex_longitude_bounded :: coord where
  "ex_longitude_bounded =
     axis_coord ''longitude'' True False [0, 10] (Some [(-5, 5), (5, 15)])"

text \<open>Three longitudes that carry bounds, and longitudes around the globe without bounds.\<close>

definition ex_longitude3 :: coord where
  "ex_longitude3 =
     axis_coord ''longitude'' True False [0, 10, 20] (Some [(-5, 5), (5, 15), (15, 25)])"

definition ex_longitude_ring :: coord where
  "ex_longitude_ring = axis_coord ''longitude'' True False [0, 10, 180, 350] None"

definition ex_cube :: "string \<Rightarrow> coord \<Rightarrow> (nat list \<Rightarrow> real) \<Rightarrow> cube" where
  "ex_cube n lon f =
     \<lparr>cube_name = n, dim_coords = [ex_height, ex_latitude, lon], scalar_coords = [],
      cube_data = f\<rparr>"

definition ex_box :: "(string \<times> real) list" where
  "ex_box = [(''longitude0'', 0), (''longitude1'', 10), (''latitude0'', 0), (''latitude1'', 10)]"

text \<open>A wind that is 1 at the first longitude and 2 at the second.\<close>

definition ex_wind :: "nat list \<Rightarrow> real" where
  "ex_wind idx = (if idx ! 2 = 0 then 1 else 2)"



definition ex_box_empty :: "(string \<times> real) list" where
  "ex_box_empty = [(''longitude0'', 0), (''longitude1'', 10), (''latitude0'', 20), (''latitude1'', 30)]"

definition ex_single :: cube where
  "ex_single =
     \<lparr>cube_name = ''q'',
      dim_coords = [ex_height, axis_coord ''latitude'' True False [5] None],
      scalar_coords = [], cube_data = (\<lambda>_. 1)\<rparr>"

text \<open>Cross-sections of height against latitude, the second with latitudes up to the poles.\<close>

definition ex_section :: cube where
  "ex_section =
     \<lparr>cube_name = ''q'', dim_coords = [ex_height, ex_latitude], scalar_coords = [],
      cube_data = (\<lambda>_. 1)\<rparr>"

definition ex_section_poles :: cube where
  "ex_section_poles =
     \<lparr>cube_name = ''q'',
      dim_coords = [ex_height, axis_coord ''latitude'' True False [-90, 0, 90] None],
      scalar_coords = [], cube_data = (\<lambda>_. 1)\<rparr>"

section \<open>Properties of the midpoint normalisation\<close>

lemma interp_three_anchors:
  assumes "lo < mid" "mid < hi"
  shows "interp v [lo, mid, hi] [0, 0.5, 1] = Inr (midpoint_curve lo mid hi v)"
proof -
  consider "v < lo" | "v = lo" | "lo < v" "v < mid" | "v = mid" | "mid < v" "v < hi"
    | "v = hi" | "hi < v"
    by linarith
  then show ?thesis
  proof cases
    case 1
    then show ?thesis using assms
      by (simp add: interp_def binary_search_with_guess_def midpoint_curve_def)
  next
    case 2
    then show ?thesis using assms
      by (simp add: interp_def binary_search_with_guess_def midpoint_curve_def)
  next
    case 3
    then show ?thesis using assms
      by (simp add: interp_def binary_search_with_guess_def midpoint_curve_def)
  next
    case 4
    then show ?thesis using assms
      by (simp add: interp_def binary_search_with_guess_def midpoint_curve_def)
  next
    case 5
    then show ?thesis using assms
      by (simp add: interp_def binary_search_with_guess_def midpoint_curve_def)
  next
    case 6
    then show ?thesis using assms
      by (simp add: interp_def binary_search_with_guess_def midpoint_curve_def)
  next
    case 7
    then show ?thesis using assms
      by (simp add: interp_def binary_search_with_guess_def midpoint_curve_def)
  qed
qed

lemma midpoint_curve_mono:
  assumes "lo < mid" "mid < hi" "x \<le> y"
  shows "midpoint_curve lo mid hi x \<le> midpoint_curve lo mid hi y"
proof -
  define p where "p = (\<lambda>v. (v - lo) / (mid - lo))"
  define q where "q = (\<lambda>v. (v - mid) / (hi - mid))"
  have curve: "midpoint_curve lo mid hi v =
     (if v \<le> lo then 0 else if v \<le> mid then 0.5 * p v
      else if v < hi then 0.5 + 0.5 * q v else 1)" for v
    unfolding midpoint_curve_def p_def q_def ..
  have a: "lo \<le> v \<Longrightarrow> v \<le> mid \<Longrightarrow> 0 \<le> p v \<and> p v \<le> 1" for v
    using assms by (simp add: p_def divide_le_eq)
  have b: "mid \<le> v \<Longrightarrow> v \<le> hi \<Longrightarrow> 0 \<le> q v \<and> q v \<le> 1" for v
    using assms by (simp add: q_def divide_le_eq)
  have c: "v \<le> w \<Longrightarrow> p v \<le> p w" for v w
    using assms by (simp add: p_def divide_right_mono)
  have d: "v \<le> w \<Longrightarrow> q v \<le> q w" for v w
    using assms by (simp add: q_def divide_right_mono)
  consider "x \<le> lo" | "lo < x" "x \<le> mid" | "mid < x" "x < hi" | "hi \<le> x"
    by linarith
  then show ?thesis
  proof cases
    case 1
    then show ?thesis using assms a[of y] b[of y] unfolding curve
      by (cases "y \<le> lo"; cases "y \<le> mid"; cases "y < hi"; simp; linarith?)
  next
    case 2
    then show ?thesis using assms a[of x] a[of y] b[of y] c[of x y] unfolding curve
      by (cases "y \<le> lo"; cases "y \<le> mid"; cases "y < hi"; simp; linarith?)
  next
    case 3
    then show ?thesis using assms b[of x] b[of y] d[of x y] unfolding curve
      by (cases "y \<le> lo"; cases "y \<le> mid"; cases "y < hi"; simp; linarith?)
  next
    case 4
    then show ?thesis using assms unfolding curve by simp
  qed
qed

text \<open>
  C10, as amended: when \<open>vmin < midpoint < vmax\<close> (strictly), \<open>MidpointNormalize.__call__\<close>
  maps \<open>vmin\<close> to 0, the midpoint to 0.5 and \<open>vmax\<close> to 1, follows the two straight segments
  between those anchors and is constant 0 below \<open>vmin\<close> and 1 above \<open>vmax\<close> (the curve
  \<open>midpoint_curve\<close>), and is monotonically non-decreasing in its input.
\<close>

theorem midpoint_normalize_call_strict:
  assumes "vmin self = Some lo" and "midpoint self = Some mid" and "vmax self = Some hi"
    and "lo < mid" and "mid < hi"
  shows "call self lo = Inr 0 \<and> call self mid = Inr 0.5 \<and> call self hi = Inr 1
    \<and> (\<forall>v. call self v = Inr (midpoint_curve lo mid hi v))
    \<and> (\<forall>x y a b. x \<le> y \<and> call self x = Inr a \<and> call self y = Inr b \<longrightarrow> a \<le> b)"
proof -
  have eq: "call self v = Inr (midpoint_curve lo mid hi v)" for v
    using assms interp_three_anchors[of lo mid hi v] by (simp add: call_def)
  have "midpoint_curve lo mid hi lo = 0" "midpoint_curve lo mid hi mid = 0.5"
    "midpoint_curve lo mid hi hi = 1"
    using assms by (simp_all add: midpoint_curve_def)
  moreover have "a \<le> b" if "x \<le> y" "call self x = Inr a" "call self y = Inr b" for x y a b
    using that midpoint_curve_mono[OF assms(4,5) that(1)] by (simp add: eq)
  ultimately show ?thesis using eq by auto
qed

theorem midpoint_normalize_call_strict_witness:
  "call \<lparr>vmin = Some 0, vmax = Some 3, midpoint = Some 1\<rparr> 0 = Inr 0
   \<and> call \<lparr>vmin = Some 0, vmax = Some 3, midpoint = Some 1\<rparr> 1 = Inr 0.5
   \<and> call \<lparr>vmin = Some 0, vmax = Some 3, midpoint = Some 1\<rparr> 3 = Inr 1
   \<and> call \<lparr>vmin = Some 0, vmax = Some 3, midpoint = Some 1\<rparr> 2 = Inr 0.75
   \<and> call \<lparr>vmin = Some 0, vmax = Some 3, midpoint = Some 1\<rparr> (-5) = Inr 0"
  using midpoint_normalize_call_strict
    [of "\<lparr>vmin = Some 0, vmax = Some 3, midpoint = Some 1\<rparr>" 0 1 3]
  by (simp add: midpoint_curve_def)

text \<open>
  C10 as stated fails where the anchors coincide: with \<open>vmin = midpoint = 0\<close> and
  \<open>vmax = 1\<close> the value \<open>vmin\<close> is mapped to 0.5, not to 0.
\<close>

theorem midpoint_normalize_call_counterexample:
  "(0::real) \<le> 0 \<and> (0::real) \<le> 1
   \<and> call \<lparr>vmin = Some 0, vmax = Some 1, midpoint = Some 0\<rparr> 0 = Inr 0.5
   \<and> call \<lparr>vmin = Some 0, vmax = Some 1, midpoint = Some 0\<rparr> 0 \<noteq> Inr 0"
  by (simp add: call_def interp_def binary_search_with_guess_def)

section \<open>Properties of the flux computation\<close>

lemma total_h_fluxes_four:
  "snd (total_h_fluxes q box u v r vc [i0, i1, i2, i3]) = Inr fs \<longleftrightarrow>
     (\<exists>f0 f1 f2 f3. snd (boundary_flux q box u v r vc i0) = Inr f0
        \<and> snd (boundary_flux q box u v r vc i1) = Inr f1
        \<and> snd (boundary_flux q box u v r vc i2) = Inr f2
        \<and> snd (boundary_flux q box u v r vc i3) = Inr f3
        \<and> fs = [f0, f1, f2, f3])"
  by (auto split: prod.splits sum.splits)


lemma total_h_fluxes_first_failure:
  assumes "\<forall>i \<in> set pre. \<exists>f. snd (boundary_flux q box u v r vc i) = Inr f"
    and "snd (boundary_flux q box u v r vc item) = Inl e"
  shows "snd (total_h_fluxes q box u v r vc (pre @ item # post)) = Inl e"
  using assms
proof (induction pre)
  case Nil
  then show ?case by (auto split: prod.splits sum.splits)
next
  case (Cons p pre)
  then show ?case by (auto split: prod.splits sum.splits)
qed

lemma total_h_fluxes_some_failure:
  assumes "snd (boundary_flux q box u v r vc item) = Inl e"
  shows "\<exists>e'. snd (total_h_fluxes q box u v r vc (pre @ item # post)) = Inl e'"
  using assms
proof (induction pre)
  case Nil
  then show ?case by (auto split: prod.splits sum.splits)
next
  case (Cons p pre)
  then show ?case by (auto split: prod.splits sum.splits)
qed

lemma net_flux_Inr:
  "snd (net_horizontal_flux_to_region q box u v r vc) = Inr res \<longleftrightarrow>
     (\<exists>f0 f1 f2 f3 rest. snd (total_h_fluxes q box u v r vc box) = Inr (f0 # f1 # f2 # f3 # rest)
        \<and> res = \<lparr>flux_name = ''net_'' @ cube_name q @ ''_horizontal_flux_to_region'',
                  flux_value = (f0 - f1) + (f2 - f3)\<rparr>)"
  by (auto simp: net_horizontal_flux_to_region_def split: prod.splits sum.splits list.splits)

lemma net_flux_Inl:
  "snd (total_h_fluxes q box u v r vc box) = Inl e \<Longrightarrow>
     snd (net_horizontal_flux_to_region q box u v r vc) = Inl e"
  by (auto simp: net_horizontal_flux_to_region_def split: prod.splits sum.splits list.splits)

section \<open>Evaluation on the example data\<close>

lemmas lib_defs = coord_by_name_def the_only_def cube_extract_def cube_masks_def
  constraint_masks_def all_masks_def and_masks_def cells_def where_true_def getitem_def
  kept_coords_def picked_coords_def take_cells_def guess_coord_axis_def coord_by_axis_def
  guess_bounds_def clips_latitude_def is_monotonic_def diff_def clip_def multiply_def shape_def collapsed_sum_def
  upt_conv_Cons Let_def

lemmas misc_defs = boundary_flux_def ll_other_def nearest_coord_value_def
  perpendicular_wind_cmpnts_def total_flux_def vcross_cnstr_def other_range_def
  vertical_cross_section_area_def m_per_deg_def vc_area_def widths_def deg2rad_def

lemmas ex_defs = axis_coord_def ex_height_def ex_latitude_def ex_longitude_def
  ex_longitude_bounded_def ex_cube_def ex_box_def ex_wind_def

lemma ex_flux_longitude0:
  "boundary_flux (ex_cube ''q'' ex_longitude (\<lambda>_. 1)) ex_box
     (ex_cube ''u'' ex_longitude ex_wind) (ex_cube ''v'' ex_longitude (\<lambda>_. 0)) 180 None
     (''longitude0'', 0) = ([], Inr (4000 * pi))"
  by (simp add: lib_defs misc_defs ex_defs)

lemma ex_flux_longitude1:
  "boundary_flux (ex_cube ''q'' ex_longitude (\<lambda>_. 1)) ex_box
     (ex_cube ''u'' ex_longitude ex_wind) (ex_cube ''v'' ex_longitude (\<lambda>_. 0)) 180 None
     (''longitude1'', 10) = ([], Inr (8000 * pi))"
  by (simp add: lib_defs misc_defs ex_defs)

lemma ex_flux_latitude0:
  "boundary_flux (ex_cube ''q'' ex_longitude (\<lambda>_. 1)) ex_box
     (ex_cube ''u'' ex_longitude ex_wind) (ex_cube ''v'' ex_longitude (\<lambda>_. 0)) 180 None
     (''latitude0'', 0) = ([], Inr 0)"
  by (simp add: lib_defs misc_defs ex_defs)

lemma ex_flux_latitude1:
  "boundary_flux (ex_cube ''q'' ex_longitude (\<lambda>_. 1)) ex_box
     (ex_cube ''u'' ex_longitude ex_wind) (ex_cube ''v'' ex_longitude (\<lambda>_. 0)) 180 None
     (''latitude1'', 10) = ([], Inr 0)"
  by (simp add: lib_defs misc_defs ex_defs)

lemma ex_net_flux:
  "net_horizontal_flux_to_region (ex_cube ''q'' ex_longitude (\<lambda>_. 1)) ex_box
     (ex_cube ''u'' ex_longitude ex_wind) (ex_cube ''v'' ex_longitude (\<lambda>_. 0)) 180 None
   = ([], Inr \<lparr>flux_name = ''net_q_horizontal_flux_to_region'',
                flux_value = - (4000 * pi)\<rparr>)"
  using ex_flux_longitude0 ex_flux_longitude1 ex_flux_latitude0 ex_flux_latitude1
  by (simp add: net_horizontal_flux_to_region_def ex_box_def ex_cube_def)






text \<open>
  C1, as amended: with the four keys in the order longitude0, longitude1, latitude0,
  latitude1, the call returns a result exactly when the four boundary fluxes are computed,
  and the net flux is then (flux at longitude0 minus flux at longitude1) plus (flux at
  latitude0 minus flux at latitude1): the flux into the box is counted positive.
\<close>

theorem net_flux_combination:
  "snd (net_horizontal_flux_to_region q
          [(''longitude0'', a), (''longitude1'', b), (''latitude0'', c), (''latitude1'', d)]
          u v r vc) = Inr res \<longleftrightarrow>
     (\<exists>f0 f1 f2 f3.
        snd (boundary_flux q [(''longitude0'', a), (''longitude1'', b), (''latitude0'', c), (''latitude1'', d)] u v r vc (''longitude0'', a)) = Inr f0
      \<and> snd (boundary_flux q [(''longitude0'', a), (''longitude1'', b), (''latitude0'', c), (''latitude1'', d)] u v r vc (''longitude1'', b)) = Inr f1
      \<and> snd (boundary_flux q [(''longitude0'', a), (''longitude1'', b), (''latitude0'', c), (''latitude1'', d)] u v r vc (''latitude0'', c)) = Inr f2
      \<and> snd (boundary_flux q [(''longitude0'', a), (''longitude1'', b), (''latitude0'', c), (''latitude1'', d)] u v r vc (''latitude1'', d)) = Inr f3
      \<and> res = \<lparr>flux_name = ''net_'' @ cube_name q @ ''_horizontal_flux_to_region'',
                flux_value = (f0 - f1) + (f2 - f3)\<rparr>)"
  unfolding net_flux_Inr total_h_fluxes_four by auto

theorem net_flux_combination_witness:
  "\<exists>res. snd (net_horizontal_flux_to_region (ex_cube ''q'' ex_longitude (\<lambda>_. 1))
            [(''longitude0'', 0), (''longitude1'', 10), (''latitude0'', 0), (''latitude1'', 10)]
            (ex_cube ''u'' ex_longitude ex_wind) (ex_cube ''v'' ex_longitude (\<lambda>_. 0))
            180 None) = Inr res
      \<and> flux_value res = (4000 * pi - 8000 * pi) + (0 - 0)"
  using net_flux_combination
    [of "ex_cube ''q'' ex_longitude (\<lambda>_. 1)" 0 10 0 10 "ex_cube ''u'' ex_longitude ex_wind"
        "ex_cube ''v'' ex_longitude (\<lambda>_. 0)" 180 None
        "\<lparr>flux_name = ''net_'' @ cube_name (ex_cube ''q'' ex_longitude (\<lambda>_. 1))
             @ ''_horizontal_flux_to_region'',
          flux_value = (4000 * pi - 8000 * pi) + (0 - 0)\<rparr>"]
    ex_flux_longitude0 ex_flux_longitude1 ex_flux_latitude0 ex_flux_latitude1
  by (simp add: ex_box_def)

text \<open>
  C1 as stated fails: on the example the fluxes at longitude0, longitude1, latitude0 and
  latitude1 are \<open>4000 \<pi>\<close>, \<open>8000 \<pi>\<close>, 0 and 0, and the call returns \<open>- 4000 \<pi>\<close>, not
  (flux at longitude1 minus flux at longitude0) plus (flux at latitude1 minus flux at
  latitude0), which is \<open>4000 \<pi>\<close>.
\<close>

theorem net_flux_sign_counterexample:
  "snd (boundary_flux (ex_cube ''q'' ex_longitude (\<lambda>_. 1)) ex_box
          (ex_cube ''u'' ex_longitude ex_wind) (ex_cube ''v'' ex_longitude (\<lambda>_. 0)) 180 None
          (''longitude0'', 0)) = Inr (4000 * pi)
   \<and> snd (boundary_flux (ex_cube ''q'' ex_longitude (\<lambda>_. 1)) ex_box
          (ex_cube ''u'' ex_longitude ex_wind) (ex_cube ''v'' ex_longitude (\<lambda>_. 0)) 180 None
          (''longitude1'', 10)) = Inr (8000 * pi)
   \<and> snd (boundary_flux (ex_cube ''q'' ex_longitude (\<lambda>_. 1)) ex_box
          (ex_cube ''u'' ex_longitude ex_wind) (ex_cube ''v'' ex_longitude (\<lambda>_. 0)) 180 None
          (''latitude0'', 0)) = Inr 0
   \<and> snd (boundary_flux (ex_cube ''q'' ex_longitude (\<lambda>_. 1)) ex_box
          (ex_cube ''u'' ex_longitude ex_wind) (ex_cube ''v'' ex_longitude (\<lambda>_. 0)) 180 None
          (''latitude1'', 10)) = Inr 0
   \<and> (\<exists>res. snd (net_horizontal_flux_to_region (ex_cube ''q'' ex_longitude (\<lambda>_. 1)) ex_box
          (ex_cube ''u'' ex_longitude ex_wind) (ex_cube ''v'' ex_longitude (\<lambda>_. 0)) 180 None)
          = Inr res
        \<and> flux_value res = - (4000 * pi)
        \<and> flux_value res \<noteq> (8000 * pi - 4000 * pi) + (0 - 0))"
  using pi_gt_zero
  by (simp add: ex_flux_longitude0 ex_flux_longitude1 ex_flux_latitude0 ex_flux_latitude1
      ex_net_flux)









lemma ll_other_wind:
  "ll_other n = Some oc \<Longrightarrow> \<exists>wind. perpendicular_wind_cmpnts u v n = Some wind"
  by (auto simp: ll_other_def perpendicular_wind_cmpnts_def split: if_splits)



text \<open>
  C4, as amended: when the selection of some boundary is empty, the extraction returns
  \<open>None\<close> and the pass fails with the AttributeError that \<open>vertical_cross_section_area\<close>
  raises on it, before any product or sum is formed; the call then returns no result, and
  when the passes before it succeed this AttributeError is the error of the call. No zero
  stands in for the missing flux.
\<close>

theorem empty_selection_fails:
  assumes "box = pre @ (k, val) # post"
    and "ll_other (butlast k) = Some oc"
    and "nearest_coord_value q (butlast k) val = Inr nv"
    and "map_of box (oc @ ''0'') = Some mn" and "map_of box (oc @ ''1'') = Some mx"
    and "cube_extract q (vcross_cnstr (butlast k) nv vc oc mn mx) = None"
  shows "snd (boundary_flux q box u v r vc (k, val)) = Inl AttributeError
     \<and> (\<exists>e. snd (net_horizontal_flux_to_region q box u v r vc) = Inl e)
     \<and> ((\<forall>i \<in> set pre. \<exists>f. snd (boundary_flux q box u v r vc i) = Inr f) \<longrightarrow>
          snd (net_horizontal_flux_to_region q box u v r vc) = Inl AttributeError)"
proof -
  from ll_other_wind[OF assms(2)] obtain wind
    where w: "perpendicular_wind_cmpnts u v (butlast k) = Some wind" by blast
  have b: "snd (boundary_flux q box u v r vc (k, val)) = Inl AttributeError"
    using assms(2-6) w
    by (simp add: boundary_flux_def Let_def total_flux_def vertical_cross_section_area_def)
  from total_h_fluxes_some_failure[OF b, of pre post] obtain e
    where "snd (total_h_fluxes q box u v r vc box) = Inl e"
    unfolding assms(1)[symmetric] by blast
  from net_flux_Inl[OF this]
  have some: "\<exists>e. snd (net_horizontal_flux_to_region q box u v r vc) = Inl e" by blast
  have first: "snd (net_horizontal_flux_to_region q box u v r vc) = Inl AttributeError"
    if "\<forall>i \<in> set pre. \<exists>f. snd (boundary_flux q box u v r vc i) = Inr f"
    using net_flux_Inl[of q box u v r vc AttributeError]
      total_h_fluxes_first_failure[OF that b, of post]
    unfolding assms(1)[symmetric] by blast
  from b some first show ?thesis by blast
qed

lemma ex_empty_extract:
  "cube_extract (ex_cube ''q'' ex_longitude (\<lambda>_. 1))
     (vcross_cnstr ''longitude'' 0 None ''latitude'' 20 30) = None"
  by (simp add: lib_defs misc_defs ex_defs)

theorem empty_selection_fails_witness:
  "snd (net_horizontal_flux_to_region (ex_cube ''q'' ex_longitude (\<lambda>_. 1)) ex_box_empty
          (ex_cube ''u'' ex_longitude ex_wind) (ex_cube ''v'' ex_longitude (\<lambda>_. 0)) 180 None)
   = Inl AttributeError"
proof -
  have o: "ll_other (butlast ''longitude0'') = Some ''latitude''"
    by (simp add: ll_other_def)
  have n: "nearest_coord_value (ex_cube ''q'' ex_longitude (\<lambda>_. 1)) (butlast ''longitude0'') 0
     = Inr 0"
    by (simp add: nearest_coord_value_def coord_by_name_def the_only_def ex_defs)
  have b: "ex_box_empty = [] @ (''longitude0'', 0) # [(''longitude1'', 10), (''latitude0'', 20), (''latitude1'', 30)]"
    by (simp add: ex_box_empty_def)
  have m0: "map_of ex_box_empty (''latitude'' @ ''0'') = Some 20"
    and m1: "map_of ex_box_empty (''latitude'' @ ''1'') = Some 30"
    by (simp_all add: ex_box_empty_def)
  have x: "cube_extract (ex_cube ''q'' ex_longitude (\<lambda>_. 1))
     (vcross_cnstr (butlast ''longitude0'') 0 None ''latitude'' 20 30) = None"
    using ex_empty_extract by simp
  from empty_selection_fails[OF b o n m0 m1 x] show ?thesis by simp
qed

text \<open>
  C4 as stated fails: with latitudes 20 to 30 requested on a grid whose latitudes are 0 and
  10 the first selection is empty, and the call fails with the AttributeError of
  \<open>vertical_cross_section_area\<close> on \<open>None\<close>, not with an error of the sum over the
  dimensions.
\<close>

theorem empty_selection_counterexample:
  "cube_extract (ex_cube ''q'' ex_longitude (\<lambda>_. 1))
     (vcross_cnstr ''longitude'' 0 None ''latitude'' 20 30) = None
   \<and> vertical_cross_section_area None 180 = Inl AttributeError
   \<and> net_horizontal_flux_to_region (ex_cube ''q'' ex_longitude (\<lambda>_. 1)) ex_box_empty
          (ex_cube ''u'' ex_longitude ex_wind) (ex_cube ''v'' ex_longitude (\<lambda>_. 0)) 180 None
     = ([], Inl AttributeError)"
  by (simp add: ex_empty_extract vertical_cross_section_area_def net_horizontal_flux_to_region_def
      ex_box_empty_def boundary_flux_def ll_other_def nearest_coord_value_def coord_by_name_def
      the_only_def ex_defs perpendicular_wind_cmpnts_def total_flux_def
      ex_empty_extract[unfolded ex_defs])

lemma guess_bounds_short:
  "length (points d) < 2 \<Longrightarrow> guess_bounds d = Inl ValueError"
  by (simp add: guess_bounds_def Let_def)

lemma guess_bounds_error: "guess_bounds d = Inl e \<Longrightarrow> e = ValueError"
  by (auto simp: guess_bounds_def Let_def split: if_splits)

lemma guess_missing_bounds_error: "guess_missing_bounds ds = Inl e \<Longrightarrow> e = ValueError"
  by (induction ds arbitrary: e)
     (auto split: sum.splits if_splits dest: guess_bounds_error)

lemma guess_missing_bounds_single:
  assumes "d \<in> set ds" "bounds d = None" "length (points d) = 1"
  shows "guess_missing_bounds ds = Inl ValueError"
proof -
  have "\<exists>e. guess_missing_bounds ds = Inl e"
    using assms
  proof (induction ds)
    case Nil
    then show ?case by simp
  next
    case (Cons a ds)
    show ?case
    proof (cases "a = d")
      case True
      with Cons.prems show ?thesis by (simp add: guess_bounds_short)
    next
      case False
      with Cons obtain e where "guess_missing_bounds ds = Inl e" by auto
      then show ?thesis by (auto split: sum.splits)
    qed
  qed
  with guess_missing_bounds_error show ?thesis by blast
qed

text \<open>
  C3, as amended: for a two-dimensional cube in which a dimension coordinate has one point
  and no bounds, \<open>vertical_cross_section_area\<close> returns no areas: it fails, and when the
  factor \<open>m_per_deg\<close> is computed the error is the ValueError of the guessing of bounds,
  which refuses a coordinate of length 1.
\<close>

theorem single_point_coordinate_fails:
  assumes "length (dim_coords c) = 2" and "d \<in> set (dim_coords c)"
    and "length (points d) = 1" and "bounds d = None"
  shows "(\<exists>e. vertical_cross_section_area (Some c) r = Inl e)
     \<and> (\<forall>m. m_per_deg c r = Inr m \<longrightarrow> vertical_cross_section_area (Some c) r = Inl ValueError)"
  using assms guess_missing_bounds_single[OF assms(2,4,3)]
  by (auto simp: vertical_cross_section_area_def split: sum.splits)

theorem single_point_coordinate_fails_witness:
  "vertical_cross_section_area (Some ex_single) 180 = Inl ValueError"
proof -
  have l: "length (dim_coords ex_single) = 2" by (simp add: ex_single_def)
  have d: "axis_coord ''latitude'' True False [5] None \<in> set (dim_coords ex_single)"
    by (simp add: ex_single_def)
  have p: "length (points (axis_coord ''latitude'' True False [5] None)) = 1"
    and b: "bounds (axis_coord ''latitude'' True False [5] None) = None"
    by (simp_all add: axis_coord_def)
  have m: "m_per_deg ex_single 180 = Inr pi"
    by (simp add: m_per_deg_def ex_single_def guess_coord_axis_def axis_coord_def)
  from single_point_coordinate_fails[OF l d p b, of 180] m show ?thesis by blast
qed

text \<open>
  C3 as stated fails: on a cube with two heights and the single latitude 5, without bounds,
  the call does not succeed and no zero areas are returned.
\<close>

theorem single_point_coordinate_counterexample:
  "length (dim_coords ex_single) = 2
   \<and> map (\<lambda>d. (length (points d), bounds d)) (dim_coords ex_single) = [(2, None), (1, None)]
   \<and> vertical_cross_section_area (Some ex_single) 180 = Inl ValueError
   \<and> (\<nexists>area. vertical_cross_section_area (Some ex_single) 180 = Inr area)"
  by (simp add: lib_defs misc_defs ex_defs ex_single_def)

section \<open>Properties of the cross-section area\<close>

lemma length_diff: "length (diff ps) = length ps - 1"
  by (simp add: diff_def)

lemma diff_nth: "Suc i < length ps \<Longrightarrow> diff ps ! i = ps ! Suc i - ps ! i"
  by (simp add: diff_def nth_tl)

lemma guess_bounds_midpoint:
  assumes mono: "is_monotonic (points d)" and len: "2 \<le> length (points d)"
    and clip: "clips_latitude d \<longrightarrow> within_poles (midpoint_bounds (points d))"
  shows "guess_bounds d = Inr (midpoint_bounds (points d))"
proof -
  define ps where "ps = points d"
  define D where "D = diff ps"
  define n where "n = length ps"
  have n2: "2 \<le> n" using len by (simp add: n_def ps_def)
  have lD: "length D = n - 1" by (simp add: D_def n_def length_diff)
  have Dne: "D \<noteq> []" using lD n2 by auto
  have Dnth: "D ! i = ps ! Suc i - ps ! i" if "Suc i < n" for i
    using that by (simp add: D_def n_def diff_nth)
  have hdD: "hd D = ps ! 1 - ps ! 0"
    using Dne Dnth[of 0] n2 by (simp add: hd_conv_nth)
  have lastD: "last D = ps ! (n - 1) - ps ! (n - 2)"
  proof -
    have "last D = D ! (n - 2)" using Dne lD by (simp add: last_conv_nth numeral_2_eq_2)
    also have "\<dots> = ps ! Suc (n - 2) - ps ! (n - 2)" using Dnth[of "n - 2"] n2 by simp
    also have "Suc (n - 2) = n - 1" using n2 by simp
    finally show ?thesis .
  qed
  let ?diffs = "hd D # D @ [last D]"
  let ?mins = "map (\<lambda>(p, d). p - d * 0.5) (zip ps (butlast ?diffs))"
  let ?maxs = "map (\<lambda>(p, d). p + d * (1 - 0.5)) (zip ps (tl ?diffs))"
  have bl: "butlast ?diffs = hd D # D" by (simp add: butlast_append)
  have tl: "tl ?diffs = D @ [last D]" by simp
  have eq: "zip ?mins ?maxs = midpoint_bounds ps"
  proof (rule nth_equalityI)
    show "length (zip ?mins ?maxs) = length (midpoint_bounds ps)"
      using lD n2 by (simp add: midpoint_bounds_def n_def bl)
  next
    fix i assume "i < length (zip ?mins ?maxs)"
    then have i: "i < n" using lD n2 by (simp add: n_def bl)
    have lo: "(hd D # D) ! i = (if i = 0 then ps ! 1 - ps ! 0 else ps ! i - ps ! (i - 1))"
      using i hdD Dnth[of "i - 1"] by (cases i) auto
    have hi: "(D @ [last D]) ! i
        = (if i = n - 1 then ps ! i - ps ! (i - 1) else ps ! (i + 1) - ps ! i)"
    proof (cases "i = n - 1")
      case True
      have "n - 1 - 1 = n - 2" by simp
      with True show ?thesis using lD lastD n2
        by (simp add: nth_append)
    next
      case False
      with i have si: "Suc i < n" by simp
      then have "i < n - 1" by simp
      with False si show ?thesis using lD Dnth[of i] by (simp add: nth_append)
    qed
    have ln: "length ps = n" by (simp add: n_def)
    show "zip ?mins ?maxs ! i = midpoint_bounds ps ! i"
      unfolding bl tl
      using i lD n2
      by (simp add: midpoint_bounds_def ln lo hi) (simp add: field_simps)
  qed
  have clipid: "map (\<lambda>(a, b). (clip (-90) 90 a, clip (-90) 90 b)) bs = bs"
    if "within_poles bs" for bs
    using that by (induction bs) (auto simp: within_poles_def clip_def)
  show ?thesis
    using mono len clip eq[unfolded D_def ps_def] clipid[of "midpoint_bounds (points d)"]
    by (auto simp: guess_bounds_def Let_def)
qed

lemma clips_latitude_ignores_bounds: "clips_latitude (d\<lparr>bounds := b\<rparr>) = clips_latitude d"
  by (simp add: clips_latitude_def)

lemma guess_bounds_ignores_bounds: "guess_bounds (d\<lparr>bounds := b\<rparr>) = guess_bounds d"
  unfolding guess_bounds_def clips_latitude_ignores_bounds by simp

lemma guess_missing_bounds_present:
  "\<forall>d \<in> set ds. bounds d \<noteq> None \<Longrightarrow> guess_missing_bounds ds = Inr ds"
  by (induction ds) auto

lemma guess_missing_bounds_absent:
  "\<forall>d \<in> set ds. bounds d = None \<and> guess_bounds d = Inr (B d) \<Longrightarrow>
     guess_missing_bounds ds = Inr (map (\<lambda>d. d\<lparr>bounds := Some (B d)\<rparr>) ds)"
  by (induction ds) auto

lemma the_only_map:
  assumes "\<And>d. points (g d) = points d"
  shows "map_sum id points (the_only (map g xs @ ys)) = map_sum id points (the_only (xs @ ys))"
proof (cases xs)
  case Nil
  then show ?thesis by simp
next
  case (Cons x xs')
  then show ?thesis using assms
    by (cases xs'; cases ys) (simp_all add: the_only_def split: list.splits)
qed

lemma m_per_deg_update:
  assumes "\<And>d. points (g d) = points d" and "\<And>d. guess_coord_axis (g d) = guess_coord_axis d"
    and "2 \<le> length (dim_coords c)"
  shows "m_per_deg (c\<lparr>dim_coords := map g (dim_coords c)\<rparr>) r = m_per_deg c r"
proof -
  let ?P = "\<lambda>d. guess_coord_axis d = Some Y"
  have f: "filter ?P (map g (dim_coords c) @ scalar_coords c)
      = map g (filter ?P (dim_coords c)) @ filter ?P (scalar_coords c)"
    using assms(2) by (simp add: filter_map comp_def)
  have "map_sum id points (coord_by_axis (c\<lparr>dim_coords := map g (dim_coords c)\<rparr>) Y)
      = map_sum id points (coord_by_axis c Y)"
    unfolding coord_by_axis_def using the_only_map[of g, OF assms(1)] f by simp
  moreover have "(case res of Inl e \<Rightarrow> Inl e
            | Inr y \<Rightarrow> (case points y of [] \<Rightarrow> Inl IndexError
                 | p # ps \<Rightarrow> Inr ((pi / 180) * r * cos (deg2rad p))))
      = (case map_sum id points res of Inl e \<Rightarrow> Inl e
            | Inr pts \<Rightarrow> (case pts of [] \<Rightarrow> Inl IndexError
                 | p # ps \<Rightarrow> Inr ((pi / 180) * r * cos (deg2rad p))))" for res :: "error + coord"
    by (cases res) simp_all
  moreover have "guess_coord_axis (map g (dim_coords c) ! 1) = guess_coord_axis (dim_coords c ! 1)"
    using assms(2,3) by simp
  ultimately show ?thesis by (simp add: m_per_deg_def)
qed

lemma guess_coord_axis_bounds: "guess_coord_axis (d\<lparr>bounds := b\<rparr>) = guess_coord_axis d"
  by (simp add: guess_coord_axis_def)

text \<open>
  C8, as amended: when every dimension coordinate has at least two strictly monotonic
  points (evenly spaced points with a spacing other than zero are such), and the midpoint
  bounds of a coordinate whose guessed bounds the library clips (a latitude in degrees with
  all points in \<open>[-90, 90]\<close>) lie within \<open>[-90, 90]\<close>, then
  \<open>vertical_cross_section_area\<close> returns the same result whether the coordinates carry the
  midpoint bounds or carry no bounds and have them inferred.
\<close>

theorem bounds_supplied_or_inferred:
  assumes "\<forall>d \<in> set (dim_coords c). is_monotonic (points d) \<and> 2 \<le> length (points d)
             \<and> (clips_latitude d \<longrightarrow> within_poles (midpoint_bounds (points d)))"
  shows "vertical_cross_section_area (Some (without_bounds c)) r
       = vertical_cross_section_area (Some (with_midpoint_bounds c)) r"
proof (cases "2 \<le> length (dim_coords c)")
  case False
  then show ?thesis
    by (simp add: vertical_cross_section_area_def without_bounds_def with_midpoint_bounds_def)
next
  case True
  let ?A = "map (\<lambda>d. d\<lparr>bounds := None\<rparr>) (dim_coords c)"
  let ?B = "map (\<lambda>d. d\<lparr>bounds := Some (midpoint_bounds (points d))\<rparr>) (dim_coords c)"
  have m: "m_per_deg (without_bounds c) r = m_per_deg (with_midpoint_bounds c) r"
    unfolding without_bounds_def with_midpoint_bounds_def
    using m_per_deg_update[of "\<lambda>d. d\<lparr>bounds := None\<rparr>" c r, OF _ _ True]
      m_per_deg_update[of "\<lambda>d. d\<lparr>bounds := Some (midpoint_bounds (points d))\<rparr>" c r, OF _ _ True]
    by (simp add: guess_coord_axis_bounds)
  have "\<forall>d \<in> set ?A. bounds d = None \<and> guess_bounds d = Inr (midpoint_bounds (points d))"
  proof
    fix d' assume "d' \<in> set ?A"
    then obtain d where d: "d \<in> set (dim_coords c)" and d': "d' = d\<lparr>bounds := None\<rparr>" by auto
    from assms d have "guess_bounds d = Inr (midpoint_bounds (points d))"
      by (intro guess_bounds_midpoint) auto
    with d' show "bounds d' = None \<and> guess_bounds d' = Inr (midpoint_bounds (points d'))"
      by (simp add: guess_bounds_ignores_bounds)
  qed
  from guess_missing_bounds_absent[OF this]
  have a: "guess_missing_bounds ?A = Inr ?B" by (simp add: comp_def)
  have b: "guess_missing_bounds ?B = Inr ?B"
    by (rule guess_missing_bounds_present) auto
  have e1: "(without_bounds c)\<lparr>dim_coords := ds\<rparr> = (with_midpoint_bounds c)\<lparr>dim_coords := ds\<rparr>"
    for ds
    by (simp add: without_bounds_def with_midpoint_bounds_def)
  have e2: "scalar_coords (without_bounds c) = scalar_coords (with_midpoint_bounds c)"
    by (simp add: without_bounds_def with_midpoint_bounds_def)
  have v: "vc_area (without_bounds c) ?B m = vc_area (with_midpoint_bounds c) ?B m" for m
    unfolding vc_area_def e1 e2 ..
  have da: "dim_coords (without_bounds c) = ?A" and db: "dim_coords (with_midpoint_bounds c) = ?B"
    by (simp_all add: without_bounds_def with_midpoint_bounds_def)
  show ?thesis
    using True v
    by (simp add: vertical_cross_section_area_def m da db a b split: sum.splits)
qed

lemma ex_section_inferred:
  "\<exists>a. vertical_cross_section_area (Some (without_bounds ex_section)) 180 = Inr a
       \<and> cube_data a [0, 0] = 1000 * pi"
  by (simp add: lib_defs misc_defs ex_defs ex_section_def without_bounds_def)

theorem bounds_supplied_or_inferred_witness:
  "vertical_cross_section_area (Some (without_bounds ex_section)) 180
     = vertical_cross_section_area (Some (with_midpoint_bounds ex_section)) 180
   \<and> (\<exists>a. vertical_cross_section_area (Some (with_midpoint_bounds ex_section)) 180 = Inr a
          \<and> cube_data a [0, 0] = 1000 * pi)"
proof -
  have "\<forall>d \<in> set (dim_coords ex_section). is_monotonic (points d) \<and> 2 \<le> length (points d)
             \<and> (clips_latitude d \<longrightarrow> within_poles (midpoint_bounds (points d)))"
    by (simp add: ex_section_def ex_defs is_monotonic_def within_poles_def midpoint_bounds_def
        clips_latitude_def upt_conv_Cons)
  from bounds_supplied_or_inferred[OF this, of 180] ex_section_inferred
  show ?thesis by simp
qed

text \<open>
  C8 as stated fails: for the evenly spaced latitudes -90, 0 and 90 the inferred bounds are
  clipped at the poles, so the first cell is 45 degrees wide, while the supplied midpoint
  bounds make it 90 degrees wide; the areas are \<open>4500 \<pi>\<close> and \<open>9000 \<pi>\<close>.
\<close>

theorem bounds_supplied_or_inferred_counterexample:
  "(\<exists>a. vertical_cross_section_area (Some (without_bounds ex_section_poles)) 180 = Inr a
        \<and> cube_data a [0, 0] = 4500 * pi)
   \<and> (\<exists>b. vertical_cross_section_area (Some (with_midpoint_bounds ex_section_poles)) 180 = Inr b
        \<and> cube_data b [0, 0] = 9000 * pi)
   \<and> map points (dim_coords ex_section_poles) = [[0, 100], [-90, 0, 90]]
   \<and> vertical_cross_section_area (Some (without_bounds ex_section_poles)) 180
       \<noteq> vertical_cross_section_area (Some (with_midpoint_bounds ex_section_poles)) 180"
proof -
  have a: "\<exists>a. vertical_cross_section_area (Some (without_bounds ex_section_poles)) 180 = Inr a
        \<and> cube_data a [0, 0] = 4500 * pi"
    by (simp add: lib_defs misc_defs ex_defs ex_section_poles_def without_bounds_def)
  have b: "\<exists>b. vertical_cross_section_area (Some (with_midpoint_bounds ex_section_poles)) 180
          = Inr b
        \<and> cube_data b [0, 0] = 9000 * pi"
    by (simp add: lib_defs misc_defs ex_defs ex_section_poles_def with_midpoint_bounds_def
        midpoint_bounds_def)
  have p: "map points (dim_coords ex_section_poles) = [[0, 100], [-90, 0, 90]]"
    by (simp add: ex_defs ex_section_poles_def)
  have "vertical_cross_section_area (Some (without_bounds ex_section_poles)) 180
       \<noteq> vertical_cross_section_area (Some (with_midpoint_bounds ex_section_poles)) 180"
  proof
    assume "vertical_cross_section_area (Some (without_bounds ex_section_poles)) 180
       = vertical_cross_section_area (Some (with_midpoint_bounds ex_section_poles)) 180"
    with a b have "4500 * pi = 9000 * pi" by auto
    then show False using pi_gt_zero by simp
  qed
  with a b p show ?thesis by simp
qed

lemma length_uniform_points: "length (uniform_points x0 dx n) = n"
  by (simp add: uniform_points_def)

lemma uniform_points_nth: "i < n \<Longrightarrow> uniform_points x0 dx n ! i = x0 + real i * dx"
  by (simp add: uniform_points_def)

lemma uniform_points_Cons:
  "0 < n \<Longrightarrow> uniform_points x0 dx n = x0 # map (\<lambda>k. x0 + real k * dx) [Suc 0..<n]"
  by (simp add: uniform_points_def upt_conv_Cons)

lemma uniform_points_monotonic: "dx \<noteq> 0 \<Longrightarrow> is_monotonic (uniform_points x0 dx n)"
proof (cases "0 < dx")
  case True
  have "sorted_wrt (\<lambda>a b. x0 + real a * dx < x0 + real b * dx) [0..<n]"
    by (rule sorted_wrt_mono_rel[of _ "(<)"]) (use True in auto)
  then show ?thesis by (simp add: is_monotonic_def uniform_points_def sorted_wrt_map)
next
  case False
  assume "dx \<noteq> 0"
  with False have neg: "dx < 0" by simp
  have "sorted_wrt (\<lambda>a b. x0 + real a * dx > x0 + real b * dx) [0..<n]"
    by (rule sorted_wrt_mono_rel[of _ "(<)"]) (use neg in \<open>auto simp: mult_less_cancel_right\<close>)
  then show ?thesis by (simp add: is_monotonic_def uniform_points_def sorted_wrt_map)
qed

lemma widths_midpoint_uniform:
  assumes "2 \<le> n" "i < n"
  shows "widths (midpoint_bounds (uniform_points x0 dx n)) ! i = dx"
proof -
  have nth: "uniform_points x0 dx n ! k = x0 + real k * dx" if "k < n" for k
    using that by (rule uniform_points_nth)
  have i1: "real (i - 1) = real i - 1" if "i \<noteq> 0" using that by (simp add: of_nat_diff)
  show ?thesis
  proof (cases "i = 0")
    case True
    with assms show ?thesis
      by (simp add: widths_def midpoint_bounds_def length_uniform_points nth field_simps)
  next
    case False
    note nz = this
    show ?thesis
    proof (cases "i = n - 1")
      case True
      with assms nz show ?thesis
        by (simp add: widths_def midpoint_bounds_def length_uniform_points nth i1 field_simps)
    next
      case False
      with assms have "i + 1 < n" by simp
      with assms nz False show ?thesis
        by (simp add: widths_def midpoint_bounds_def length_uniform_points nth i1 field_simps)
    qed
  qed
qed


text \<open>
  C2, as amended: on a uniform latitude/longitude grid without bounds, with at least two
  points on each axis, spacings \<open>dlat\<close> and \<open>dlon\<close> other than zero and latitude cells
  within \<open>[-90, 90]\<close>, \<open>vertical_cross_section_area\<close> gives every cell the area
  \<open>dlat * (dlon * (\<pi> / 180) * R * cos lat0)\<close>, where \<open>lat0\<close> is the first latitude of
  the grid: one factor \<open>R * \<pi> / 180\<close>, applied to the longitude only, and the cosine of
  the first latitude for every row.
\<close>

theorem area_uniform_latlon_grid:
  assumes "2 \<le> m" and "2 \<le> n" and "dlat \<noteq> 0" and "dlon \<noteq> 0"
    and "within_poles (midpoint_bounds (uniform_points lat0 dlat m))"
    and "i < m" and "j < n"
  shows "\<exists>area. vertical_cross_section_area (Some (latlon_grid lat0 dlat m lon0 dlon n f)) r
            = Inr area
          \<and> cube_data area [i, j] = dlat * (dlon * ((pi / 180) * r * cos (deg2rad lat0)))"
proof -
  let ?lat = "axis_coord ''latitude'' True False (uniform_points lat0 dlat m) None"
  let ?lon = "axis_coord ''longitude'' True False (uniform_points lon0 dlon n) None"
  let ?g = "latlon_grid lat0 dlat m lon0 dlon n f"
  let ?blat = "midpoint_bounds (uniform_points lat0 dlat m)"
  let ?blon = "midpoint_bounds (uniform_points lon0 dlon n)"
  let ?m = "(pi / 180) * r * cos (deg2rad lat0)"
  have dims: "dim_coords ?g = [?lat, ?lon]" by (simp add: latlon_grid_def)
  have plat: "points ?lat = uniform_points lat0 dlat m"
    and plon: "points ?lon = uniform_points lon0 dlon n"
    by (simp_all add: axis_coord_def)
  have mpd: "m_per_deg ?g r = Inr ?m"
    using assms(1) uniform_points_Cons[of m lat0 dlat]
    by (simp add: m_per_deg_def latlon_grid_def guess_coord_axis_def coord_by_axis_def
        the_only_def axis_coord_def)
  have glat: "guess_bounds ?lat = Inr ?blat"
    using guess_bounds_midpoint[of ?lat] assms(1,3,5)
    by (simp add: plat uniform_points_monotonic length_uniform_points)
  have nclip: "\<not> clips_latitude ?lon" by (simp add: clips_latitude_def axis_coord_def)
  have glon: "guess_bounds ?lon = Inr ?blon"
    using guess_bounds_midpoint[of ?lon] assms(2,4) nclip
    by (simp add: plon uniform_points_monotonic length_uniform_points)
  have gmb: "guess_missing_bounds (dim_coords ?g)
      = Inr [?lat\<lparr>bounds := Some ?blat\<rparr>, ?lon\<lparr>bounds := Some ?blon\<rparr>]"
    using glat glon by (simp add: dims) (simp add: axis_coord_def)
  have vc: "\<exists>area. vc_area ?g [?lat\<lparr>bounds := Some ?blat\<rparr>, ?lon\<lparr>bounds := Some ?blon\<rparr>] ?m
           = Inr area
         \<and> cube_data area [i, j] = widths ?blat ! i * (widths ?blon ! j * ?m)"
    by (simp add: vc_area_def coord_by_name_def the_only_def axis_coord_def latlon_grid_def)
  from vc obtain area where
    a: "vc_area ?g [?lat\<lparr>bounds := Some ?blat\<rparr>, ?lon\<lparr>bounds := Some ?blon\<rparr>] ?m = Inr area"
    and d: "cube_data area [i, j] = widths ?blat ! i * (widths ?blon ! j * ?m)" by blast
  have "vertical_cross_section_area (Some ?g) r = Inr area"
    using a mpd gmb by (simp add: vertical_cross_section_area_def dims)
  moreover have "cube_data area [i, j] = dlat * (dlon * ?m)"
    using d widths_midpoint_uniform[OF assms(1,6)] widths_midpoint_uniform[OF assms(2,7)]
    by simp
  ultimately show ?thesis by blast
qed

theorem area_uniform_latlon_grid_witness:
  "\<exists>area. vertical_cross_section_area (Some (latlon_grid 0 1 2 0 1 2 (\<lambda>_. 1))) 180 = Inr area
      \<and> cube_data area [1, 1] = pi"
proof -
  have w: "within_poles (midpoint_bounds (uniform_points 0 1 2))"
    by (simp add: within_poles_def midpoint_bounds_def uniform_points_def upt_conv_Cons)
  from area_uniform_latlon_grid[of 2 2 1 1 0 1 1 0 "\<lambda>_. 1" 180, OF _ _ _ _ w]
  show ?thesis by (simp add: deg2rad_def)
qed

text \<open>
  C2 as stated fails: on the grid with latitudes 0, 1 and longitudes 0, 1 and the radius
  180 the area of the first cell is \<open>\<pi>\<close>, while
  \<open>R\<^sup>2 (\<pi> / 180)\<^sup>2 dlon dlat cos lat\<close> is \<open>\<pi>\<^sup>2\<close>, more than 1 away.
\<close>

theorem area_uniform_latlon_grid_counterexample:
  "\<exists>area. vertical_cross_section_area (Some (latlon_grid 0 1 2 0 1 2 (\<lambda>_. 1))) 180 = Inr area
      \<and> cube_data area [0, 0] = pi
      \<and> \<bar>cube_data area [0, 0] - 180\<^sup>2 * (pi / 180)\<^sup>2 * 1 * 1 * cos (deg2rad 0)\<bar> > 1"
proof -
  have "2 * pi \<le> pi * pi" using pi_ge_two by (intro mult_right_mono) auto
  then have "1 < pi * pi - pi" using pi_ge_two by linarith
  then show ?thesis
    by (simp add: lib_defs misc_defs axis_coord_def latlon_grid_def uniform_points_def
        power2_eq_square)
qed

section \<open>Properties of the extraction\<close>

lemma length_constraint_masks: "length (constraint_masks q nt) = length (dim_coords q)"
  by (simp add: constraint_masks_def all_masks_def split: sum.splits)

lemma length_and_masks: "length (and_masks ms ns) = min (length ms) (length ns)"
  by (simp add: and_masks_def)

lemma and_masks_nth:
  "j < length ms \<Longrightarrow> j < length ns \<Longrightarrow>
     and_masks ms ns ! j = map (\<lambda>(a, b). a \<and> b) (zip (ms ! j) (ns ! j))"
  by (simp add: and_masks_def)

lemma foldl_masks_nth:
  assumes "length start = length (dim_coords q)" and "j < length (dim_coords q)"
  shows "length (foldl (\<lambda>ms nt. and_masks ms (constraint_masks q nt)) start cs)
           = length (dim_coords q)
     \<and> foldl (\<lambda>ms nt. and_masks ms (constraint_masks q nt)) start cs ! j
         = foldl (\<lambda>m nt. map (\<lambda>(a, b). a \<and> b) (zip m (constraint_masks q nt ! j)))
             (start ! j) cs"
  using assms
proof (induction cs arbitrary: start)
  case Nil
  then show ?case by simp
next
  case (Cons nt cs)
  have l: "length (and_masks start (constraint_masks q nt)) = length (dim_coords q)"
    using Cons.prems by (simp add: length_and_masks length_constraint_masks)
  from Cons.IH[OF l Cons.prems(2)] Cons.prems show ?case
    by (simp add: and_masks_nth length_constraint_masks)
qed

lemma constraint_masks_nth_other:
  assumes "j < length (dim_coords q)" and "coord_name (dim_coords q ! j) \<noteq> fst nt"
  shows "\<exists>b. constraint_masks q nt ! j = replicate (length (points (dim_coords q ! j))) b"
  using assms by (auto simp: constraint_masks_def all_masks_def split: sum.splits)

lemma the_only_Inr: "the_only cs = Inr c \<longleftrightarrow> cs = [c]"
  by (auto simp: the_only_def split: list.splits)

lemma constraint_masks_nth_same:
  assumes "coord_by_name q n = Inr d" and "j < length (dim_coords q)" and "dim_coords q ! j = d"
  shows "constraint_masks q (n, t) ! j = map (matches t) (cells d)"
proof -
  from assms(1) have f: "filter (\<lambda>x. coord_name x = n) (dim_coords q @ scalar_coords q) = [d]"
    by (simp add: coord_by_name_def the_only_Inr)
  then have "d \<in> set (filter (\<lambda>x. coord_name x = n) (dim_coords q @ scalar_coords q))" by simp
  then have n: "coord_name d = n" by auto
  have "d \<in> set (dim_coords q)" using assms(2,3) by auto
  with n have "list_ex (\<lambda>x. coord_name x = n) (dim_coords q)" by (auto simp: list_ex_iff)
  with assms n show ?thesis by (simp add: constraint_masks_def)
qed

lemma foldl_replicate_masks:
  assumes "\<forall>nt \<in> set cs. \<exists>b. f nt = replicate n b"
  shows "\<exists>b'. foldl (\<lambda>m nt. map (\<lambda>(a, b). a \<and> b) (zip m (f nt))) (replicate n b0) cs
           = replicate n b'"
  using assms
proof (induction cs arbitrary: b0)
  case Nil
  then show ?case by auto
next
  case (Cons nt cs)
  then obtain b where b: "f nt = replicate n b" by auto
  have "map (\<lambda>(a, b). a \<and> b) (zip (replicate n b0) (replicate n b)) = replicate n (b0 \<and> b)"
    by (simp add: zip_replicate)
  with Cons b show ?case by simp
qed

lemma length_cells: "bounds_fit d \<Longrightarrow> length (cells d) = length (points d)"
  by (simp add: bounds_fit_def cells_def split: option.splits)

lemma free_axis_mask:
  assumes d: "coord_by_name q other = Inr d" and j: "j < length (dim_coords q)"
    and dj: "dim_coords q ! j = d" and fit: "bounds_fit d"
    and pre: "\<forall>nt \<in> set pre. fst nt \<noteq> other"
  shows "cube_masks q (pre @ [(other, t)]) ! j = map (matches t) (cells d)
       \<or> cube_masks q (pre @ [(other, t)]) ! j = replicate (length (points d)) False"
proof -
  let ?n = "length (points d)"
  have nm: "coord_name d = other"
  proof -
    from d have "filter (\<lambda>x. coord_name x = other) (dim_coords q @ scalar_coords q) = [d]"
      by (simp add: coord_by_name_def the_only_Inr)
    then have "d \<in> set (filter (\<lambda>x. coord_name x = other) (dim_coords q @ scalar_coords q))"
      by simp
    then show ?thesis by auto
  qed
  have la: "length (all_masks q True) = length (dim_coords q)" by (simp add: all_masks_def)
  have st: "all_masks q True ! j = replicate ?n True" using j dj by (simp add: all_masks_def)
  have "\<forall>nt \<in> set pre. \<exists>b. constraint_masks q nt ! j = replicate ?n b"
    using constraint_masks_nth_other[OF j] pre dj nm by auto
  from foldl_replicate_masks[OF this, of True] obtain b' where
    b': "foldl (\<lambda>m nt. map (\<lambda>(a, b). a \<and> b) (zip m (constraint_masks q nt ! j)))
           (replicate ?n True) pre = replicate ?n b'" by blast
  have m: "cube_masks q (pre @ [(other, t)]) ! j
     = map (\<lambda>(a, b). a \<and> b) (zip (replicate ?n b') (map (matches t) (cells d)))"
    using foldl_masks_nth[OF la j, of "pre @ [(other, t)]"] st b'
      constraint_masks_nth_same[OF d j dj, of t]
    by (simp add: cube_masks_def)
  have lc: "length (map (matches t) (cells d)) = ?n" using fit by (simp add: length_cells)
  have t: "map (\<lambda>(a, b). a \<and> b) (zip (replicate (length xs) True) xs) = xs" for xs :: "bool list"
    by (induction xs) auto
  have f: "map (\<lambda>(a, b). a \<and> b) (zip (replicate (length xs) False) xs)
      = replicate (length xs) False" for xs :: "bool list"
    by (induction xs) auto
  show ?thesis
  proof (cases b')
    case True
    with m t[of "map (matches t) (cells d)"] lc show ?thesis by simp
  next
    case False
    with m f[of "map (matches t) (cells d)"] lc show ?thesis by simp
  qed
qed

lemma as_slice_Some:
  "as_slice ms = Some ks \<Longrightarrow>
     length ks = length ms
     \<and> (\<forall>j < length ms. where_true (ms ! j) \<noteq> [] \<and> ks ! j = key_of_mask (ms ! j))"
proof (induction ms arbitrary: ks)
  case Nil
  then show ?case by simp
next
  case (Cons m ms)
  from Cons.prems obtain ks' where ks': "as_slice ms = Some ks'"
    and w: "where_true m \<noteq> []" and ks: "ks = key_of_mask m # ks'"
    by (auto simp: Let_def key_of_mask_def split: option.splits if_splits)
  from Cons.IH[OF ks'] w ks show ?case
    by (auto simp: nth_Cons split: nat.splits)
qed

lemma key_indices_key_of_mask:
  "where_true m \<noteq> [] \<Longrightarrow> key_indices (key_of_mask m) = where_true m"
  by (cases "where_true m") (auto simp: key_of_mask_def Let_def)

lemma where_true_replicate_False: "where_true (replicate n False) = []"
  by (simp add: where_true_def)

lemma coord_name_take_cells: "coord_name (take_cells w d) = coord_name d"
  by (simp add: take_cells_def)

lemma kept_coords_Cons:
  "kept_coords (k # ks) (d # ds)
     = (case k of Keep w \<Rightarrow> [take_cells w d] | Pick i \<Rightarrow> []) @ kept_coords ks ds"
  by (simp add: kept_coords_def)

lemma picked_coords_Cons:
  "picked_coords (k # ks) (d # ds)
     = (case k of Keep w \<Rightarrow> [] | Pick i \<Rightarrow> [take_cells [i] d]) @ picked_coords ks ds"
  by (simp add: picked_coords_def)

lemma kept_picked_none:
  assumes "length ks = length ds" and "filter (\<lambda>x. coord_name x = n) ds = []"
  shows "filter (\<lambda>x. coord_name x = n) (kept_coords ks ds) = []
       \<and> filter (\<lambda>x. coord_name x = n) (picked_coords ks ds) = []"
  using assms
proof (induction ks ds rule: list_induct2)
  case Nil
  then show ?case by (simp add: kept_coords_def picked_coords_def)
next
  case (Cons k ks d ds)
  from Cons.prems have nd: "coord_name d \<noteq> n" and rest: "filter (\<lambda>x. coord_name x = n) ds = []"
    by (auto split: if_splits)
  from Cons.IH[OF rest] nd show ?case
    by (cases k) (simp_all add: kept_coords_Cons picked_coords_Cons coord_name_take_cells)
qed

lemma filter_singleton: "filter P xs = [d] \<Longrightarrow> P d \<and> d \<in> set xs"
proof -
  assume "filter P xs = [d]"
  then have "d \<in> set (filter P xs)" by simp
  then show ?thesis by simp
qed

lemma kept_picked_one:
  assumes "length ks = length ds" and "filter (\<lambda>x. coord_name x = n) ds = [d]"
    and "j < length ds" and "ds ! j = d"
  shows "filter (\<lambda>x. coord_name x = n) (kept_coords ks ds)
         @ filter (\<lambda>x. coord_name x = n) (picked_coords ks ds)
       = [take_cells (key_indices (ks ! j)) d]"
  using assms
proof (induction ks ds arbitrary: j rule: list_induct2)
  case Nil
  then show ?case by simp
next
  case (Cons k ks a ds)
  have pd: "coord_name d = n"
    using filter_singleton[OF Cons.prems(1)] by simp
  show ?case
  proof (cases "coord_name a = n")
    case True
    with Cons.prems(1) have ad: "a = d" and rest: "filter (\<lambda>x. coord_name x = n) ds = []"
      by auto
    have j0: "j = 0"
    proof (rule ccontr)
      assume "j \<noteq> 0"
      then obtain j' where "j = Suc j'" by (cases j) auto
      with Cons.prems(2,3) have "d \<in> set ds" by auto
      with pd have "d \<in> set (filter (\<lambda>x. coord_name x = n) ds)" by simp
      with rest show False by simp
    qed
    from kept_picked_none[OF Cons.hyps(1) rest] True ad j0 show ?thesis
      by (cases k) (simp_all add: kept_coords_Cons picked_coords_Cons coord_name_take_cells)
  next
    case False
    with Cons.prems(1) have rest: "filter (\<lambda>x. coord_name x = n) ds = [d]" by simp
    from False pd have "a \<noteq> d" by auto
    with Cons.prems(2,3) obtain j' where j': "j = Suc j'" "j' < length ds" "ds ! j' = d"
      by (cases j) auto
    from Cons.IH[OF rest j'(2,3)] False j'(1) show ?thesis
      by (cases k) (simp_all add: kept_coords_Cons picked_coords_Cons coord_name_take_cells)
  qed
qed

lemma coord_by_name_getitem:
  assumes d: "coord_by_name q n = Inr d" and j: "j < length (dim_coords q)"
    and dj: "dim_coords q ! j = d" and len: "length ks = length (dim_coords q)"
  shows "coord_by_name (getitem q ks) n = Inr (take_cells (key_indices (ks ! j)) d)"
proof -
  let ?P = "\<lambda>x. coord_name x = n"
  from d have f: "filter ?P (dim_coords q) @ filter ?P (scalar_coords q) = [d]"
    by (simp add: coord_by_name_def the_only_Inr)
  have "d \<in> set (filter ?P (dim_coords q @ scalar_coords q))" using f by simp
  then have pd: "coord_name d = n" by auto
  have "d \<in> set (dim_coords q)" using j dj by auto
  with pd have ne: "filter ?P (dim_coords q) \<noteq> []" by (auto simp: filter_empty_conv)
  with f have fd: "filter ?P (dim_coords q) = [d]" and fs: "filter ?P (scalar_coords q) = []"
    by (auto simp: append_eq_Cons_conv)
  from kept_picked_one[OF len fd j dj] fs
  have "filter ?P (dim_coords (getitem q ks) @ scalar_coords (getitem q ks))
      = [take_cells (key_indices (ks ! j)) d]"
    by (auto simp: getitem_def append_eq_Cons_conv)
  then show ?thesis by (simp add: coord_by_name_def the_only_Inr)
qed

lemma map_nth_filter: "map ((!) xs) (filter (\<lambda>i. Q (xs ! i)) [0..<length xs]) = filter Q xs"
proof -
  have "filter Q xs = filter Q (map ((!) xs) [0..<length xs])" by (simp add: map_nth)
  also have "\<dots> = map ((!) xs) (filter (Q \<circ> (!) xs) [0..<length xs])" by (simp add: filter_map)
  finally show ?thesis by (simp add: comp_def)
qed

lemma where_true_map: "where_true (map P xs) = filter (\<lambda>i. P (xs ! i)) [0..<length xs]"
  by (auto simp: where_true_def intro: filter_cong)

lemma cells_nth:
  assumes "bounds_fit d" "i < length (points d)"
  shows "cells d ! i = (points d ! i, map_option (\<lambda>bs. bs ! i) (bounds d))"
  using assms by (auto simp: cells_def bounds_fit_def split: option.splits)

lemma cells_take_cells:
  assumes "bounds_fit d" and "\<forall>i \<in> set w. i < length (points d)"
  shows "cells (take_cells w d) = map ((!) (cells d)) w"
proof (cases "bounds d")
  case None
  with assms show ?thesis
    by (simp add: cells_def take_cells_def)
next
  case (Some bs)
  with assms have l: "length bs = length (points d)" by (simp add: bounds_fit_def)
  have "zip (map ((!) (points d)) w) (map ((!) bs) w) = map (\<lambda>i. (points d ! i, bs ! i)) w"
    by (induction w) auto
  with Some assms l show ?thesis
    by (simp add: cells_def take_cells_def)
qed

lemma points_take_cells: "points (take_cells w d) = map ((!) (points d)) w"
  by (simp add: take_cells_def)

lemma other_range_point: "other_range mn mx (p, None) = in_box_range mn mx p"
  by (auto simp: other_range_def in_box_range_def)

text \<open>
  C5, as amended: in the cross-section extracted for a boundary, the free coordinate keeps
  exactly the cells that satisfy the range test of the code. For a coordinate without
  bounds these are the points \<open>x\<close> with \<open>other_min \<le> x \<le> other_max\<close>, or, when
  \<open>other_max < other_min\<close>, with \<open>x \<ge> other_min\<close> or \<open>x \<le> other_max\<close>. For a coordinate
  with bounds the test compares the ends of the cell's bound, not its point. The free
  coordinate is a dimension coordinate of the cube, and the vertical constraint does not
  constrain it.
\<close>

theorem free_axis_selection:
  assumes ex: "cube_extract q (vcross_cnstr this_coord nearest vc other_coord mn mx) = Some c'"
    and d: "coord_by_name q other_coord = Inr d" and dim: "d \<in> set (dim_coords q)"
    and fit: "bounds_fit d"
    and neq: "this_coord \<noteq> other_coord"
    and vc: "\<forall>nt \<in> set (case vc of None \<Rightarrow> [] | Some cs \<Rightarrow> cs). fst nt \<noteq> other_coord"
  shows "\<exists>d'. coord_by_name c' other_coord = Inr d'
           \<and> cells d' = filter (other_range mn mx) (cells d)
           \<and> (bounds d = None \<longrightarrow> points d' = filter (in_box_range mn mx) (points d))"
proof -
  let ?P = "other_range mn mx"
  let ?pre = "[(this_coord, Value nearest)] @ (case vc of None \<Rightarrow> [] | Some cs \<Rightarrow> cs)"
  let ?cs = "?pre @ [(other_coord, Callable ?P)]"
  let ?ms = "cube_masks q ?cs"
  have cs: "vcross_cnstr this_coord nearest vc other_coord mn mx = ?cs"
    by (simp add: vcross_cnstr_def)
  from dim obtain j where j: "j < length (dim_coords q)" and dj: "dim_coords q ! j = d"
    by (auto simp: in_set_conv_nth)
  from ex obtain ks where ks: "as_slice ?ms = Some ks" and c': "c' = getitem q ks"
    by (auto simp: cube_extract_def cs)
  have lm: "length ?ms = length (dim_coords q)"
    using foldl_masks_nth[of "all_masks q True" q j ?cs] j
    by (simp add: cube_masks_def all_masks_def)
  from as_slice_Some[OF ks] lm j
  have lk: "length ks = length (dim_coords q)" and wt: "where_true (?ms ! j) \<noteq> []"
    and kj: "ks ! j = key_of_mask (?ms ! j)" by auto
  have pre: "\<forall>nt \<in> set ?pre. fst nt \<noteq> other_coord" using neq vc by auto
  from free_axis_mask[OF d j dj fit pre, of "Callable ?P"] wt
  have mj: "?ms ! j = map ?P (cells d)"
    by (auto simp: where_true_replicate_False)
  let ?w = "where_true (map ?P (cells d))"
  have ki: "key_indices (ks ! j) = ?w"
    using key_indices_key_of_mask[OF wt] kj mj by simp
  have lc: "length (cells d) = length (points d)" using fit by (rule length_cells)
  have w: "?w = filter (\<lambda>i. ?P (cells d ! i)) [0..<length (cells d)]" by (rule where_true_map)
  then have inr: "\<forall>i \<in> set ?w. i < length (points d)" using lc by auto
  let ?d' = "take_cells ?w d"
  have c: "coord_by_name c' other_coord = Inr ?d'"
    using coord_by_name_getitem[OF d j dj lk] ki c' by simp
  have ce: "cells ?d' = filter ?P (cells d)"
    using cells_take_cells[OF fit inr] map_nth_filter[of "cells d" ?P] w by simp
  have pe: "points ?d' = filter (in_box_range mn mx) (points d)" if "bounds d = None"
  proof -
    have "cells d ! i = (points d ! i, None)" if "i < length (points d)" for i
      using cells_nth[OF fit that] \<open>bounds d = None\<close> by simp
    then have "?w = filter (\<lambda>i. in_box_range mn mx (points d ! i)) [0..<length (points d)]"
      unfolding w lc by (intro filter_cong) (auto simp: other_range_point)
    then show ?thesis
      using map_nth_filter[of "points d" "in_box_range mn mx"] by (simp add: points_take_cells)
  qed
  show ?thesis
  proof (intro exI[of _ ?d'] conjI impI)
    show "coord_by_name c' other_coord = Inr ?d'" by (rule c)
    show "cells ?d' = filter ?P (cells d)" by (rule ce)
    show "points ?d' = filter (in_box_range mn mx) (points d)" if "bounds d = None"
      using that by (rule pe)
  qed
qed

theorem free_axis_selection_witness:
  "\<exists>c' d'. cube_extract (ex_cube ''q'' ex_longitude_ring (\<lambda>_. 1))
              (vcross_cnstr ''latitude'' 0 None ''longitude'' 350 10) = Some c'
     \<and> coord_by_name c' ''longitude'' = Inr d'
     \<and> points d' = [0, 10, 350]"
proof -
  let ?q = "ex_cube ''q'' ex_longitude_ring (\<lambda>_. 1)"
  have "\<exists>c'. cube_extract ?q (vcross_cnstr ''latitude'' 0 None ''longitude'' 350 10) = Some c'"
    by (simp add: lib_defs misc_defs ex_defs ex_longitude_ring_def)
  then obtain c' where
    ex: "cube_extract ?q (vcross_cnstr ''latitude'' 0 None ''longitude'' 350 10) = Some c'" ..
  have d: "coord_by_name ?q ''longitude'' = Inr ex_longitude_ring"
    by (simp add: coord_by_name_def the_only_def ex_defs ex_longitude_ring_def)
  have dim: "ex_longitude_ring \<in> set (dim_coords ?q)" by (simp add: ex_cube_def)
  have fit: "bounds_fit ex_longitude_ring"
    by (simp add: bounds_fit_def ex_longitude_ring_def axis_coord_def)
  have b: "bounds ex_longitude_ring = None" by (simp add: ex_longitude_ring_def axis_coord_def)
  from free_axis_selection[OF ex d dim fit] b
  obtain d' where "coord_by_name c' ''longitude'' = Inr d'"
    and "points d' = filter (in_box_range 350 10) (points ex_longitude_ring)"
    by auto
  then have "coord_by_name c' ''longitude'' = Inr d' \<and> points d' = [0, 10, 350]"
    by (simp add: in_box_range_def ex_longitude_ring_def axis_coord_def)
  with ex show ?thesis by blast
qed

text \<open>
  C5 as stated fails for a coordinate with bounds: with the range 0 to 16 the longitude 20,
  whose cell reaches from 15 to 25, is kept, although 20 is not within the range.
\<close>

theorem free_axis_selection_counterexample:
  "\<exists>c' d'. cube_extract (ex_cube ''q'' ex_longitude3 (\<lambda>_. 1))
              (vcross_cnstr ''latitude'' 0 None ''longitude'' 0 16) = Some c'
     \<and> coord_by_name c' ''longitude'' = Inr d'
     \<and> points d' = [0, 10, 20]
     \<and> filter (\<lambda>x. 0 \<le> x \<and> x \<le> 16) [0, 10, 20 :: real] = [0, 10]"
  by (simp add: lib_defs misc_defs ex_defs ex_longitude3_def)

end
